theory Spec2Isabelle
  imports Complex_Main
begin

section \<open>Form validation (\<open>PortfolioManager.validateForm\<close>)\<close>

text \<open>
  A JavaScript string is a sequence of UTF-16 code units; a code unit is modelled by its
  number. \<open>js\<close> reads an ASCII literal of the theory as such a string.
\<close>

type_synonym jsstring = "nat list"

definition js :: "string \<Rightarrow> jsstring" where
  "js s = map of_char s"

text \<open>
  The code units that \<open>String.prototype.trim\<close> strips and that the class \<open>\s\<close> of a
  regular expression matches are the same set: WhiteSpace and LineTerminator of ECMAScript
  (TAB, LF, VT, FF, CR, SP, NBSP, the space separators of Unicode, LS, PS and the BOM).
\<close>

definition isWhiteSpace :: "nat \<Rightarrow> bool" where
  "isWhiteSpace c \<longleftrightarrow>
     c \<in> {9, 10, 11, 12, 13, 32, 160, 5760, 8232, 8233, 8239, 8287, 12288, 65279}
     \<or> (8192 \<le> c \<and> c \<le> 8202)"

definition trim :: "jsstring \<Rightarrow> jsstring" where
  "trim s = rev (dropWhile isWhiteSpace (rev (dropWhile isWhiteSpace s)))"

text \<open>
  The fragment of regular expressions that the literal of \<open>validateForm\<close> uses: a literal
  character, one or more characters of a class, and concatenation. \<open>remainders r s\<close> lists what
  can be left of \<open>s\<close> after \<open>r\<close> has matched a prefix of it, which is what a backtracking
  matcher explores; the pattern is anchored at both ends (\<open>^\<close> ... \<open>$\<close>), so \<open>test\<close>
  succeeds when the empty remainder is among them.
\<close>

datatype regex =
    Lit nat
  | OneOrMore "nat \<Rightarrow> bool"
  | Seq regex regex

fun runs :: "(nat \<Rightarrow> bool) \<Rightarrow> jsstring \<Rightarrow> jsstring list" where
  "runs p [] = []"
| "runs p (c # cs) = (if p c then cs # runs p cs else [])"

fun remainders :: "regex \<Rightarrow> jsstring \<Rightarrow> jsstring list" where
  "remainders (Lit a) s = (case s of [] \<Rightarrow> [] | c # cs \<Rightarrow> if c = a then [cs] else [])"
| "remainders (OneOrMore p) s = runs p s"
| "remainders (Seq r1 r2) s = concat (map (remainders r2) (remainders r1 s))"

definition test :: "regex \<Rightarrow> jsstring \<Rightarrow> bool" where
  "test r s \<longleftrightarrow> [] \<in> set (remainders r s)"

text \<open>The class \<open>[^\s@]\<close>; \<open>@\<close> is code unit 64 and \<open>.\<close> is code unit 46.\<close>

definition notSpaceOrAt :: "nat \<Rightarrow> bool" where
  "notSpaceOrAt c \<longleftrightarrow> \<not> isWhiteSpace c \<and> c \<noteq> 64"

text \<open>\<^verbatim>\<open>/^[^\s@]+@[^\s@]+\.[^\s@]+$/\<close>\<close>

definition emailRegex :: regex where
  "emailRegex =
     Seq (OneOrMore notSpaceOrAt)
       (Seq (Lit 64) (Seq (OneOrMore notSpaceOrAt) (Seq (Lit 46) (OneOrMore notSpaceOrAt))))"

text \<open>
  A \<open>FormData\<close> object is an ordered list of entries; \<open>get\<close> returns the value of the first
  entry with the given name, or \<open>null\<close>. A value is a string or a \<open>File\<close>.
\<close>

datatype entry = Text jsstring | File

type_synonym formdata = "(string \<times> entry) list"

definition get :: "formdata \<Rightarrow> string \<Rightarrow> entry option" where
  "get fd name = map_of fd name"

datatype exn = TypeError | LibraryError

datatype alert = FillAllFields | InvalidEmailFormat

text \<open>
  \<open>formData.get(name)?.trim()\<close>: \<open>undefined\<close> (here \<open>None\<close>) when the field is absent, the
  trimmed string when it is a string, and a \<open>TypeError\<close> when it is a \<open>File\<close>, which has no
  method \<open>trim\<close>.
\<close>

definition trimmedField :: "formdata \<Rightarrow> string \<Rightarrow> exn + jsstring option" where
  "trimmedField fd name =
     (case get fd name of
        None \<Rightarrow> Inr None
      | Some (Text s) \<Rightarrow> Inr (Some (trim s))
      | Some File \<Rightarrow> Inl TypeError)"

text \<open>\<open>!x\<close> for a value that is \<open>undefined\<close> or a string.\<close>

definition falsy :: "jsstring option \<Rightarrow> bool" where
  "falsy x \<longleftrightarrow> (case x of None \<Rightarrow> True | Some s \<Rightarrow> s = [])"

text \<open>
  \<open>validateForm\<close> returns the alerts it has shown and its boolean result, or the exception
  that escapes it.
\<close>

definition validateForm :: "formdata \<Rightarrow> exn + (alert list \<times> bool)" where
  "validateForm formData =
     (case trimmedField formData ''name'' of
        Inl e \<Rightarrow> Inl e
      | Inr name \<Rightarrow>
     (case trimmedField formData ''email'' of
        Inl e \<Rightarrow> Inl e
      | Inr email \<Rightarrow>
     (case trimmedField formData ''message'' of
        Inl e \<Rightarrow> Inl e
      | Inr message \<Rightarrow>
          if falsy name \<or> falsy email \<or> falsy message then Inr ([FillAllFields], False)
          else if \<not> test emailRegex (the email) then Inr ([InvalidEmailFormat], False)
          else Inr ([], True))))"

text \<open>
  The pattern in the words of the specification: a local part, \<open>@\<close>, a domain, a dot and a
  top-level part, each non-empty and free of whitespace and of \<open>@\<close>.
\<close>

definition emailShape :: "jsstring \<Rightarrow> bool" where
  "emailShape s \<longleftrightarrow>
     (\<exists>l d t. s = l @ [64] @ d @ [46] @ t \<and> l \<noteq> [] \<and> d \<noteq> [] \<and> t \<noteq> []
        \<and> list_all notSpaceOrAt l \<and> list_all notSpaceOrAt d \<and> list_all notSpaceOrAt t)"

definition nonEmptyText :: "formdata \<Rightarrow> string \<Rightarrow> bool" where
  "nonEmptyText fd name \<longleftrightarrow> (\<exists>s. get fd name = Some (Text s) \<and> trim s \<noteq> [])"

definition emailText :: "formdata \<Rightarrow> jsstring" where
  "emailText fd = (case get fd ''email'' of Some (Text s) \<Rightarrow> trim s | _ \<Rightarrow> [])"

definition form :: "string \<Rightarrow> string \<Rightarrow> string \<Rightarrow> formdata" where
  "form n e m = [(''name'', Text (js n)), (''email'', Text (js e)), (''message'', Text (js m))]"

section \<open>Particle count (\<open>PortfolioManager.createParticles\<close>)\<close>

record particles_config =
  count :: rat
  maxCount :: rat
  minCount :: rat

record typing_config =
  speed :: nat
  pauseBetweenTexts :: nat
  initialDelay :: nat

record scroll_config =
  navbarThreshold :: rat
  revealOffset :: rat

record config =
  particles :: particles_config
  typing :: typing_config
  scroll :: scroll_config

definition default_config :: config where
  "default_config =
     \<lparr>particles = \<lparr>count = 50, maxCount = 100, minCount = 20\<rparr>,
      typing = \<lparr>speed = 150, pauseBetweenTexts = 2000, initialDelay = 2000\<rparr>,
      scroll = \<lparr>navbarThreshold = 50, revealOffset = 150\<rparr>\<rparr>"

text \<open>
  Lines 78 to 87 of \<open>createParticles\<close>. \<open>window.devicePixelRatio || 1\<close> replaces a ratio of
  zero by one. JavaScript numbers are modelled by rationals: \<open>count / 2\<close> and \<open>count * 1.5\<close>
  are not rounded. The loop \<open>for (i = 0; i < particleCount; i++)\<close> then runs
  \<open>\<lceil>particleCount\<rceil>\<close> times.
\<close>

definition particleCount :: "config \<Rightarrow> int \<Rightarrow> rat \<Rightarrow> rat" where
  "particleCount cfg screenWidth pixelRatio =
     (let devicePixelRatio = (if pixelRatio = 0 then 1 else pixelRatio);
          isLowEndDevice = (devicePixelRatio < 2 \<and> screenWidth < 1024)
      in if isLowEndDevice then max (minCount (particles cfg)) (count (particles cfg) / 2)
         else if screenWidth > 1920 then min (maxCount (particles cfg)) (count (particles cfg) * (3 / 2))
         else count (particles cfg))"

definition loopIterations :: "rat \<Rightarrow> nat" where
  "loopIterations n = nat \<lceil>n\<rceil>"

section \<open>The controller, the page and the event loop\<close>

text \<open>
  Console output, one constructor for each message of the source, with the arguments the
  message carries.
\<close>

datatype console_msg =
    WarnElementNotFound string
  | LogCreatedParticles rat
  | ErrorTypeWriter exn
  | WarnAOSNotLoaded
  | LogAOSInitialized
  | ErrorAOSFailed exn
  | LogPerformanceUnavailable
  | WarnAlreadyInitialized
  | LogInitializing
  | LogInitialized
  | ErrorInitFailed exn
  | ErrorFormSubmission exn
  | LogDestroying
  | LogDestroyed

text \<open>
  A collaborator that may be missing from the page: the AOS library and the browser's
  \<open>PerformanceObserver\<close>. When present it either works or raises when called.
\<close>

datatype collaborator = Unavailable | Works | Raises

datatype event_type = ScrollEvent | ResizeEvent

datatype frame_callback = ScrollFrame | ResizeFrame

text \<open>
  The closure of one call of \<open>initTypingAnimation\<close>: the constant \<open>animationId\<close> and the
  variable \<open>currentIndex\<close>. A cycle has one continuation at a time (its start timeout, the
  reveal loop it awaits, or its pause timeout), so the closure travels with that
  continuation.
\<close>

record cycle =
  animationId :: nat
  currentIndex :: nat

text \<open>
  A call of \<open>typeWriter\<close> suspended at the \<open>await\<close> of line 132: the cycle that awaits
  its result, its \<open>AbortController\<close>, the arguments \<open>text\<close> (\<open>None\<close> for \<open>undefined\<close>)
  and \<open>speed\<close>, and the loop variable \<open>i\<close>.
\<close>

record reveal =
  owner :: cycle
  controller :: nat
  revealText :: "string option"
  interval :: nat
  pos :: nat

text \<open>The callbacks handed to \<open>setTimeout\<close>, by the line that creates them.\<close>

datatype task =
    StartCycle cycle
  | ResolveChar reveal
  | NextText cycle
  | FormSent string
  | FormReset string
  | FormErrorReset string
  | ResizeLater

text \<open>A pending timeout: its identifier, the time at which it is due, its callback.\<close>

type_synonym timer = "nat \<times> nat \<times> task"

text \<open>
  One record holds the fields of the \<open>PortfolioManager\<close> object (down to \<open>config\<close>), the
  browser's queues and clock, and the part of the page the script reads and writes. An
  element reference is the element's id; a bound handler and an \<open>AbortController\<close> are
  numbered by \<open>nextId\<close> when they are created, as timeouts are. \<open>abortListeners\<close> pairs a
  controller with the timeout that the listener of line 134 clears. \<open>scrollPasses\<close> counts
  the runs of the frame callback of \<open>handleScroll\<close>; it is the one field that neither
  the source nor the browser has. Random particle placement, CSS and the click and hover
  handlers' bodies are not modelled: only how many of them are registered.
\<close>

record state =
  isInitialized :: bool
  isDestroyed :: bool
  activeAnimations :: "nat set"
  typingController :: "nat option"
  particleContainer :: "string option"
  elements :: "string set"
  handlers_scroll :: "nat option"
  handlers_resize :: "nat option"
  scrollTicking :: bool
  resizeTicking :: bool
  config :: config
  console :: "console_msg list"
  alerts :: "alert list"
  timers :: "timer list"
  frames :: "frame_callback list"
  windowListeners :: "(event_type \<times> nat) list"
  clock :: nat
  nextId :: nat
  aborted :: "nat set"
  abortListeners :: "(nat \<times> nat) list"
  aos :: collaborator
  aosInitCalls :: nat
  performanceObserver :: collaborator
  domIds :: "string set"
  innerWidth :: int
  innerHeight :: int
  devicePixelRatio :: rat
  scrollY :: rat
  typingHTML :: string
  particleNodes :: nat
  navbarScrolled :: bool
  fadeIns :: "(rat \<times> bool) list"
  anchorClickListeners :: "nat list"
  projectCardListeners :: "nat list"
  skillCardListeners :: "(bool \<times> nat) list"
  formSubmitListeners :: nat
  hasSubmitBtn :: bool
  btnText :: string
  btnDisabled :: bool
  btnBackground :: string
  formFields :: formdata
  formDefaults :: formdata
  scrollPasses :: nat

text \<open>
  A method either returns or throws; the state reached when it throws is kept, since the
  assignments made before the exception stay in effect. For an \<open>async\<close> method
  (\<open>init\<close>, the submit handler) throwing is the rejection of the promise it returns.
\<close>

datatype result = Returns state | Throws exn state

fun state_of :: "result \<Rightarrow> state" where
  "state_of (Returns s) = s"
| "state_of (Throws e s) = s"

fun andThen :: "result \<Rightarrow> (state \<Rightarrow> result) \<Rightarrow> result" where
  "andThen (Returns s) f = f s"
| "andThen (Throws e s) f = Throws e s"

fun tryCatch :: "result \<Rightarrow> (exn \<Rightarrow> state \<Rightarrow> result) \<Rightarrow> result" where
  "tryCatch (Returns s) h = Returns s"
| "tryCatch (Throws e s) h = h e s"

definition consoleLog :: "console_msg \<Rightarrow> state \<Rightarrow> state" where
  "consoleLog m s = s\<lparr>console := console s @ [m]\<rparr>"

subsection \<open>The constructor\<close>

definition constructor :: "state \<Rightarrow> state" where
  "constructor s =
     s\<lparr>isInitialized := False, isDestroyed := False, activeAnimations := {},
       typingController := None, particleContainer := None, elements := {},
       handlers_scroll := None, handlers_resize := None,
       scrollTicking := False, resizeTicking := False, config := default_config\<rparr>"

subsection \<open>\<open>getElement\<close> and \<open>createParticles\<close>\<close>

definition getElement :: "string \<Rightarrow> bool \<Rightarrow> state \<Rightarrow> string option \<times> state" where
  "getElement ident cache s =
     (if cache \<and> ident \<in> elements s then (Some ident, s)
      else if ident \<notin> domIds s then (None, consoleLog (WarnElementNotFound ident) s)
      else (Some ident, if cache then s\<lparr>elements := insert ident (elements s)\<rparr> else s))"

definition createParticles :: "state \<Rightarrow> state" where
  "createParticles s =
     (case getElement ''bgAnimation'' True s of
        (None, s1) \<Rightarrow> s1
      | (Some bgAnimation, s1) \<Rightarrow>
          let n = particleCount (config s1) (innerWidth s1) (devicePixelRatio s1)
          in consoleLog (LogCreatedParticles n)
               (s1\<lparr>particleNodes := particleNodes s1 + loopIterations n,
                   particleContainer := Some bgAnimation\<rparr>))"

subsection \<open>Timeouts and cancellation\<close>

definition setTimeout :: "task \<Rightarrow> nat \<Rightarrow> state \<Rightarrow> state" where
  "setTimeout cb delay s =
     s\<lparr>timers := timers s @ [(nextId s, clock s + delay, cb)], nextId := Suc (nextId s)\<rparr>"

definition clearTimeout :: "nat \<Rightarrow> state \<Rightarrow> state" where
  "clearTimeout tid s = s\<lparr>timers := filter (\<lambda>t. fst t \<noteq> tid) (timers s)\<rparr>"

text \<open>
  \<open>controller.abort()\<close>. The first call sets \<open>signal.aborted\<close> and runs the listeners of
  the signal in the order of their registration; a later call does nothing. A listener
  (line 134) clears its timeout and rejects its promise. The reveal loop that awaits a
  rejected promise is the callback of the cleared timeout, so it leaves the model with
  it: in the source it goes to its \<open>catch\<close> block, logs nothing for this error and
  returns \<open>false\<close>, and \<open>runCycle\<close>, resumed with \<open>success = false\<close>, does nothing more.
\<close>

definition abortListener :: "nat \<Rightarrow> nat \<times> nat \<Rightarrow> state \<Rightarrow> state" where
  "abortListener ctl l s = (if fst l = ctl then clearTimeout (snd l) s else s)"

definition abort :: "nat \<Rightarrow> state \<Rightarrow> state" where
  "abort ctl s =
     (if ctl \<in> aborted s then s
      else fold (abortListener ctl) (abortListeners s) (s\<lparr>aborted := insert ctl (aborted s)\<rparr>))"

subsection \<open>\<open>typeWriter\<close> and \<open>initTypingAnimation\<close>\<close>

definition texts :: "string list" where
  "texts = [''Junior Front-end Developer'', ''React Enthusiast'',
            ''Creative Problem Solver'', ''UI/UX Designer'']"

text \<open>\<open>texts[currentIndex]\<close>, \<open>undefined\<close> out of range.\<close>

definition textAt :: "nat \<Rightarrow> string option" where
  "textAt i = (if i < length texts then Some (texts ! i) else None)"

text \<open>
  One round of the loop of \<open>typeWriter\<close> at \<open>i = pos r\<close> (lines 126 to 138), up to the
  next \<open>await\<close>. The result is \<open>Some b\<close> when the call returns \<open>b\<close> and \<open>None\<close> when it
  is suspended on a new timeout. Reading \<open>text.length\<close> of \<open>undefined\<close> raises inside
  the \<open>try\<close>; the \<open>catch\<close> logs the error and returns \<open>false\<close>.
\<close>

definition revealLoop :: "reveal \<Rightarrow> state \<Rightarrow> bool option \<times> state" where
  "revealLoop r s =
     (case revealText r of
        None \<Rightarrow> (Some False, consoleLog (ErrorTypeWriter TypeError) s)
      | Some t \<Rightarrow>
          if pos r < length t then
            if controller r \<in> aborted s \<or> isDestroyed s then (Some False, s)
            else
              let s1 = s\<lparr>typingHTML := typingHTML s @ [t ! pos r]\<rparr>;
                  timeout = nextId s1;
                  s2 = setTimeout (ResolveChar r) (interval r) s1
              in (None, s2\<lparr>abortListeners := abortListeners s2 @ [(controller r, timeout)]\<rparr>)
          else (Some True, s))"

text \<open>
  \<open>typeWriter(text, element, speed)\<close> from its entry to its first \<open>await\<close> or return. The
  element is the one \<open>initTypingAnimation\<close> found, so it is not \<open>null\<close>.
\<close>

definition typeWriter :: "cycle \<Rightarrow> string option \<Rightarrow> nat \<Rightarrow> state \<Rightarrow> bool option \<times> state" where
  "typeWriter c t ms s =
     (if isDestroyed s then (Some False, s)
      else
        let s1 = s\<lparr>typingHTML := []\<rparr>;
            ctl = nextId s1;
            s2 = s1\<lparr>typingController := Some ctl, nextId := Suc ctl\<rparr>
        in revealLoop \<lparr>owner = c, controller = ctl, revealText = t, interval = ms, pos = 0\<rparr> s2)"

text \<open>\<open>runCycle\<close> after \<open>await this.typeWriter(...)\<close> (lines 178 to 187).\<close>

definition afterTypeWriter :: "cycle \<Rightarrow> bool option \<times> state \<Rightarrow> state" where
  "afterTypeWriter c r =
     (case r of
        (None, s) \<Rightarrow> s
      | (Some success, s) \<Rightarrow>
          if success \<and> \<not> isDestroyed s then
            setTimeout (NextText (c\<lparr>currentIndex := (currentIndex c + 1) mod length texts\<rparr>))
              (pauseBetweenTexts (typing (config s))) s
          else s)"

definition runCycle :: "cycle \<Rightarrow> state \<Rightarrow> state" where
  "runCycle c s =
     (if isDestroyed s \<or> animationId c \<notin> activeAnimations s then s
      else afterTypeWriter c
             (typeWriter c (textAt (currentIndex c)) (speed (typing (config s))) s))"

definition initTypingAnimation :: "state \<Rightarrow> state" where
  "initTypingAnimation s =
     (case getElement ''typingText'' True s of
        (None, s1) \<Rightarrow> s1
      | (Some typingElement, s1) \<Rightarrow>
          let animationId = clock s1;
              s2 = s1\<lparr>activeAnimations := insert animationId (activeAnimations s1)\<rparr>
          in setTimeout (StartCycle \<lparr>animationId = animationId, currentIndex = 0\<rparr>)
               (initialDelay (typing (config s2))) s2)"

subsection \<open>Scroll handling\<close>

definition handleScroll :: "state \<Rightarrow> state" where
  "handleScroll s =
     (if scrollTicking s \<or> isDestroyed s then s
      else s\<lparr>scrollTicking := True, frames := frames s @ [ScrollFrame]\<rparr>)"

definition updateNavbar :: "state \<Rightarrow> state" where
  "updateNavbar s =
     (case getElement ''navbar'' True s of
        (None, s1) \<Rightarrow> s1
      | (Some navbar, s1) \<Rightarrow>
          s1\<lparr>navbarScrolled := (scrollY s1 > navbarThreshold (scroll (config s1)))\<rparr>)"

text \<open>
  An element of class \<open>fade-in\<close> is its distance from the top of the document and whether
  it has the class \<open>visible\<close>; the top of its bounding rectangle is that distance less the
  scroll position.
\<close>

definition revealElement :: "state \<Rightarrow> rat \<times> bool \<Rightarrow> rat \<times> bool" where
  "revealElement s el =
     (if snd el then el
      else (fst el, fst el - scrollY s < of_int (innerHeight s) - revealOffset (scroll (config s))))"

definition revealOnScroll :: "state \<Rightarrow> state" where
  "revealOnScroll s = s\<lparr>fadeIns := map (revealElement s) (fadeIns s)\<rparr>"

text \<open>The callback that \<open>handleScroll\<close> hands to \<open>requestAnimationFrame\<close>.\<close>

definition scrollFrame :: "state \<Rightarrow> state" where
  "scrollFrame s =
     (let s1 = revealOnScroll (updateNavbar s)
      in s1\<lparr>scrollTicking := False, scrollPasses := Suc (scrollPasses s1)\<rparr>)"

subsection \<open>Bindings made by \<open>init\<close>\<close>

definition initSmoothScrolling :: "state \<Rightarrow> state" where
  "initSmoothScrolling s = s\<lparr>anchorClickListeners := map Suc (anchorClickListeners s)\<rparr>"

definition initContactForm :: "state \<Rightarrow> state" where
  "initContactForm s =
     (case getElement ''contactForm'' True s of
        (None, s1) \<Rightarrow> s1
      | (Some contactForm, s1) \<Rightarrow> s1\<lparr>formSubmitListeners := Suc (formSubmitListeners s1)\<rparr>)"

text \<open>
  A project card gets a \<open>mouseenter\<close> and a \<open>mouseleave\<close> listener; a skill card gets them
  when it has an icon.
\<close>

definition initCardEffects :: "state \<Rightarrow> state" where
  "initCardEffects s =
     s\<lparr>projectCardListeners := map (\<lambda>n. n + 2) (projectCardListeners s),
       skillCardListeners :=
         map (\<lambda>card. if fst card then (fst card, snd card + 2) else card) (skillCardListeners s)\<rparr>"

text \<open>\<open>AOS.init({...})\<close> of the library, which may raise.\<close>

definition AOS_init :: "state \<Rightarrow> result" where
  "AOS_init s =
     (if aos s = Raises then Throws LibraryError s
      else Returns (s\<lparr>aosInitCalls := Suc (aosInitCalls s)\<rparr>))"

definition initAOS :: "state \<Rightarrow> result" where
  "initAOS s =
     (if aos s = Unavailable then Returns (consoleLog WarnAOSNotLoaded s)
      else tryCatch
             (andThen (AOS_init s) (\<lambda>s1. Returns (consoleLog LogAOSInitialized s1)))
             (\<lambda>error s1. Returns (consoleLog (ErrorAOSFailed error) s1)))"

text \<open>
  \<open>new PerformanceObserver(...)\<close> and \<open>observer.observe(...)\<close>, which may raise. The
  observer's callback, which only warns about long tasks, is not modelled.
\<close>

definition observeLongTasks :: "state \<Rightarrow> result" where
  "observeLongTasks s = (if performanceObserver s = Raises then Throws TypeError s else Returns s)"

definition initPerformanceMonitoring :: "state \<Rightarrow> result" where
  "initPerformanceMonitoring s =
     (if performanceObserver s = Unavailable then Returns s
      else tryCatch (observeLongTasks s)
             (\<lambda>error s1. Returns (consoleLog LogPerformanceUnavailable s1)))"

subsection \<open>The contact form\<close>

text \<open>
  The submit handler up to its \<open>await\<close>. The call of \<open>validateForm\<close> is outside the
  \<open>try\<close> block, so what it raises leaves the handler (as the rejection of the promise that
  the \<open>async\<close> handler returns).
\<close>

definition submitFailed :: "string \<Rightarrow> exn \<Rightarrow> state \<Rightarrow> result" where
  "submitFailed originalText error s =
     Returns (setTimeout (FormErrorReset originalText) 3000
       ((consoleLog (ErrorFormSubmission error) s)
          \<lparr>btnText := ''Error! Coba lagi'',
           btnBackground := ''linear-gradient(45deg, #ff4444, #cc0000)''\<rparr>))"

definition submitHandler :: "state \<Rightarrow> result" where
  "submitHandler s =
     (if \<not> hasSubmitBtn s then Returns s
      else
        let originalText = btnText s;
            formData = formFields s
        in case validateForm formData of
             Inl error \<Rightarrow> Throws error s
           | Inr (shown, isValid) \<Rightarrow>
               let s1 = s\<lparr>alerts := alerts s @ shown\<rparr>
               in if \<not> isValid then Returns s1
                  else tryCatch
                         (Returns (setTimeout (FormSent originalText) 1500
                            (s1\<lparr>btnText := ''Mengirim...'', btnDisabled := True,
                                btnBackground := ''linear-gradient(45deg, #888, #666)''\<rparr>)))
                         (submitFailed originalText))"

text \<open>The handler after the \<open>await\<close> (lines 294 to 304), still inside the \<open>try\<close>.\<close>

definition formSent :: "string \<Rightarrow> state \<Rightarrow> state" where
  "formSent originalText s =
     state_of (tryCatch
       (Returns (setTimeout (FormReset originalText) 2000
          (s\<lparr>btnText := ''Terkirim!'',
             btnBackground := ''linear-gradient(45deg, #00ff88, #0088ff)''\<rparr>)))
       (submitFailed originalText))"

definition formReset :: "string \<Rightarrow> state \<Rightarrow> state" where
  "formReset originalText s =
     s\<lparr>btnText := originalText, btnDisabled := False, btnBackground := [],
       formFields := formDefaults s\<rparr>"

definition formErrorReset :: "string \<Rightarrow> state \<Rightarrow> state" where
  "formErrorReset originalText s =
     s\<lparr>btnText := originalText, btnDisabled := False, btnBackground := []\<rparr>"

subsection \<open>Resize handling\<close>

definition resizeFrame :: "state \<Rightarrow> state" where
  "resizeFrame s =
     (let s1 = (case particleContainer s of
                  None \<Rightarrow> s
                | Some container \<Rightarrow> createParticles (s\<lparr>particleNodes := 0\<rparr>))
      in s1\<lparr>resizeTicking := False\<rparr>)"

definition handleResize :: "state \<Rightarrow> state" where
  "handleResize s =
     (if resizeTicking s then s
      else s\<lparr>resizeTicking := True, frames := frames s @ [ResizeFrame]\<rparr>)"

subsection \<open>Window listeners\<close>

text \<open>
  The listener list of the window holds a callback at most once for an event type;
  \<open>removeEventListener\<close> removes the callback it is given.
\<close>

definition addEventListener :: "event_type \<Rightarrow> nat \<Rightarrow> state \<Rightarrow> state" where
  "addEventListener ev h s =
     (if (ev, h) \<in> set (windowListeners s) then s
      else s\<lparr>windowListeners := windowListeners s @ [(ev, h)]\<rparr>)"

definition removeEventListener :: "event_type \<Rightarrow> nat \<Rightarrow> state \<Rightarrow> state" where
  "removeEventListener ev h s =
     s\<lparr>windowListeners := filter (\<lambda>l. l \<noteq> (ev, h)) (windowListeners s)\<rparr>"

subsection \<open>\<open>init\<close> and \<open>destroy\<close>\<close>

text \<open>Lines 474 to 485: the two bound handlers, their registration, the first scroll check.\<close>

definition registerHandlers :: "state \<Rightarrow> state" where
  "registerHandlers s =
     (let hs = nextId s;
          hr = Suc (nextId s);
          s1 = s\<lparr>handlers_scroll := Some hs, handlers_resize := Some hr, nextId := Suc hr\<rparr>;
          s2 = addEventListener ResizeEvent hr (addEventListener ScrollEvent hs s1);
          s3 = updateNavbar (revealOnScroll s2)
      in consoleLog LogInitialized (s3\<lparr>isInitialized := True\<rparr>))"

text \<open>
  The methods as the interpreter runs them. A member access or a method call on a
  reference that is \<open>null\<close> raises a \<open>TypeError\<close>; \<open>member ref use\<close> is the use of
  \<open>ref\<close> in the statements \<open>use\<close>. The definitions with the suffix \<open>_js\<close> below are
  the methods written with these uses and with the guards of the source before them.
\<close>

definition member :: "'a option \<Rightarrow> ('a \<Rightarrow> state \<Rightarrow> result) \<Rightarrow> state \<Rightarrow> result" where
  "member ref use s = (case ref of None \<Rightarrow> Throws TypeError s | Some x \<Rightarrow> use x s)"

text \<open>\<open>createParticles\<close>: \<open>if (!bgAnimation) return;\<close> and later \<open>bgAnimation.appendChild\<close>.\<close>

definition createParticles_js :: "state \<Rightarrow> result" where
  "createParticles_js s =
     (case getElement ''bgAnimation'' True s of
        (bgAnimation, s1) \<Rightarrow>
          if bgAnimation = None then Returns s1
          else
            let n = particleCount (config s1) (innerWidth s1) (devicePixelRatio s1)
            in member bgAnimation
                 (\<lambda>container s2.
                    Returns (consoleLog (LogCreatedParticles n)
                      (s2\<lparr>particleNodes := particleNodes s2 + loopIterations n,
                          particleContainer := bgAnimation\<rparr>)))
                 s1)"

text \<open>\<open>updateNavbar\<close>: \<open>if (!navbar) return;\<close> and later \<open>navbar.classList.toggle\<close>.\<close>

definition updateNavbar_js :: "state \<Rightarrow> result" where
  "updateNavbar_js s =
     (case getElement ''navbar'' True s of
        (navbar, s1) \<Rightarrow>
          if navbar = None then Returns s1
          else member navbar
                 (\<lambda>element s2.
                    Returns (s2\<lparr>navbarScrolled :=
                               (scrollY s2 > navbarThreshold (scroll (config s2)))\<rparr>))
                 s1)"

text \<open>\<open>initContactForm\<close>: \<open>if (!form) return;\<close> and later \<open>form.addEventListener\<close>.\<close>

definition initContactForm_js :: "state \<Rightarrow> result" where
  "initContactForm_js s =
     (case getElement ''contactForm'' True s of
        (contactForm, s1) \<Rightarrow>
          if contactForm = None then Returns s1
          else member contactForm
                 (\<lambda>element s2. Returns (s2\<lparr>formSubmitListeners := Suc (formSubmitListeners s2)\<rparr>))
                 s1)"

text \<open>The frame callbacks of \<open>handleScroll\<close> and \<open>handleResize\<close>.\<close>

definition scrollFrame_js :: "state \<Rightarrow> result" where
  "scrollFrame_js s =
     andThen (updateNavbar_js s) (\<lambda>s1.
     andThen (Returns (revealOnScroll s1)) (\<lambda>s2.
     Returns (s2\<lparr>scrollTicking := False, scrollPasses := Suc (scrollPasses s2)\<rparr>)))"

definition resizeFrame_js :: "state \<Rightarrow> result" where
  "resizeFrame_js s =
     andThen
       (if particleContainer s \<noteq> None
        then member (particleContainer s)
               (\<lambda>container s1. createParticles_js (s1\<lparr>particleNodes := 0\<rparr>)) s
        else Returns s)
       (\<lambda>s1. Returns (s1\<lparr>resizeTicking := False\<rparr>))"

text \<open>Lines 474 to 478 of \<open>init\<close>: the two bound handlers and their registration.\<close>

definition bindHandlers :: "state \<Rightarrow> state" where
  "bindHandlers s =
     (let hs = nextId s;
          hr = Suc (nextId s);
          s1 = s\<lparr>handlers_scroll := Some hs, handlers_resize := Some hr, nextId := Suc hr\<rparr>
      in addEventListener ResizeEvent hr (addEventListener ScrollEvent hs s1))"

text \<open>
  The body of the \<open>try\<close> block of \<open>init\<close> (lines 452 to 485). \<open>initTypingAnimation\<close> is
  \<open>async\<close> and is not awaited, but it holds no \<open>await\<close>: its body runs to its end inside
  the call, and it uses the element only in the callbacks it schedules.
\<close>

definition setupSequence :: "state \<Rightarrow> result" where
  "setupSequence s =
     andThen (initPerformanceMonitoring s) (\<lambda>s1.
     andThen (createParticles_js s1) (\<lambda>s2.
     andThen (initAOS s2) (\<lambda>s3.
     andThen (Returns (initTypingAnimation s3)) (\<lambda>s4.
     andThen (Returns (initSmoothScrolling s4)) (\<lambda>s5.
     andThen (initContactForm_js s5) (\<lambda>s6.
     andThen (Returns (initCardEffects s6)) (\<lambda>s7.
     andThen (Returns (bindHandlers s7)) (\<lambda>s8.
     andThen (Returns (revealOnScroll s8)) (\<lambda>s9.
     andThen (updateNavbar_js s9) (\<lambda>s10.
     Returns (consoleLog LogInitialized (s10\<lparr>isInitialized := True\<rparr>))))))))))))"

text \<open>
  \<open>init\<close> around the body of its \<open>try\<close> block: the guard of lines 444 to 447, the first
  message, the body, and the \<open>catch\<close> of lines 487 to 489. The body is a parameter, so
  that what the \<open>catch\<close> does can be stated for whatever a setup sequence raises.
\<close>

definition initWith :: "(state \<Rightarrow> result) \<Rightarrow> state \<Rightarrow> result" where
  "initWith setup s =
     (if isInitialized s then Returns (consoleLog WarnAlreadyInitialized s)
      else tryCatch (setup (consoleLog LogInitializing s))
             (\<lambda>error s1. Returns (consoleLog (ErrorInitFailed error) s1)))"

definition init :: "state \<Rightarrow> result" where
  "init s = initWith setupSequence s"

text \<open>Lines 501 to 504 of \<open>destroy\<close>.\<close>

definition stopTyping :: "state \<Rightarrow> state" where
  "stopTyping s =
     (case typingController s of
        None \<Rightarrow> s
      | Some ctl \<Rightarrow> (abort ctl s)\<lparr>typingController := None\<rparr>)"

text \<open>Lines 510 to 515 of \<open>destroy\<close>.\<close>

definition removeHandlers :: "state \<Rightarrow> state" where
  "removeHandlers s =
     (let s1 = (case handlers_scroll s of
                  None \<Rightarrow> s
                | Some h \<Rightarrow> removeEventListener ScrollEvent h s)
      in case handlers_resize s1 of
           None \<Rightarrow> s1
         | Some h \<Rightarrow> removeEventListener ResizeEvent h s1)"

definition destroy :: "state \<Rightarrow> state" where
  "destroy s =
     (let s1 = stopTyping ((consoleLog LogDestroying s)\<lparr>isDestroyed := True\<rparr>);
          s2 = removeHandlers (s1\<lparr>activeAnimations := {}\<rparr>)
      in consoleLog LogDestroyed (s2\<lparr>elements := {}, isInitialized := False\<rparr>))"

text \<open>
  \<open>destroy\<close> as the interpreter runs it: \<open>if (this.typingController)\<close> and inside it
  \<open>this.typingController.abort()\<close>. The handlers are only passed on to
  \<open>removeEventListener\<close>.
\<close>

definition destroy_js :: "state \<Rightarrow> result" where
  "destroy_js s =
     andThen
       (let s0 = (consoleLog LogDestroying s)\<lparr>isDestroyed := True\<rparr>
        in if typingController s0 \<noteq> None
           then member (typingController s0)
                  (\<lambda>ctl s1. Returns ((abort ctl s1)\<lparr>typingController := None\<rparr>)) s0
           else Returns s0)
       (\<lambda>s1. Returns (consoleLog LogDestroyed
               ((removeHandlers (s1\<lparr>activeAnimations := {}\<rparr>))
                  \<lparr>elements := {}, isInitialized := False\<rparr>)))"

subsection \<open>The event loop\<close>

text \<open>The callback of a timeout.\<close>

fun runTask :: "task \<Rightarrow> state \<Rightarrow> state" where
  "runTask (StartCycle c) s = (if \<not> isDestroyed s then runCycle c s else s)"
| "runTask (ResolveChar r) s = afterTypeWriter (owner r) (revealLoop (r\<lparr>pos := Suc (pos r)\<rparr>) s)"
| "runTask (NextText c) s =
     (if \<not> isDestroyed s \<and> animationId c \<in> activeAnimations s then runCycle c s else s)"
| "runTask (FormSent originalText) s = formSent originalText s"
| "runTask (FormReset originalText) s = formReset originalText s"
| "runTask (FormErrorReset originalText) s = formErrorReset originalText s"
| "runTask ResizeLater s = handleResize s"

text \<open>
  The timeout \<open>tid\<close> fires: it leaves the list and its callback runs. Nothing happens when
  it is not pending or not yet due. Timeouts that are due may fire in any order.
\<close>

definition fire :: "nat \<Rightarrow> state \<Rightarrow> state" where
  "fire tid s =
     (case find (\<lambda>t. fst t = tid) (timers s) of
        None \<Rightarrow> s
      | Some (_, due, cb) \<Rightarrow>
          if clock s < due then s
          else runTask cb (s\<lparr>timers := remove1 (tid, due, cb) (timers s)\<rparr>))"

fun runFrameCallback :: "frame_callback \<Rightarrow> state \<Rightarrow> state" where
  "runFrameCallback ScrollFrame s = scrollFrame s"
| "runFrameCallback ResizeFrame s = resizeFrame s"

text \<open>A rendered frame runs the callbacks requested since the last one.\<close>

definition frame :: "state \<Rightarrow> state" where
  "frame s = fold runFrameCallback (frames s) (s\<lparr>frames := []\<rparr>)"

text \<open>The window dispatches an event to its listeners, which are bound methods.\<close>

fun callListener :: "event_type \<Rightarrow> event_type \<times> nat \<Rightarrow> state \<Rightarrow> state" where
  "callListener ev (ScrollEvent, h) s = (if ev = ScrollEvent then handleScroll s else s)"
| "callListener ev (ResizeEvent, h) s = (if ev = ResizeEvent then handleResize s else s)"

definition dispatch :: "event_type \<Rightarrow> state \<Rightarrow> state" where
  "dispatch ev s = fold (callListener ev) (windowListeners s) s"

text \<open>
  What can happen to a page that holds a controller: calls of its public methods, the
  browser's events, and the listeners that the script installs beside the class
  (\<open>beforeunload\<close> calls \<open>destroy\<close>, \<open>visibilitychange\<close> sets the destroyed flag to
  \<open>document.hidden\<close>, \<open>orientationchange\<close> calls \<open>handleResize\<close> after 100 ms).
\<close>

datatype event =
    Init
  | Destroy
  | CreateParticles
  | HandleScroll
  | HandleResize
  | Timeout nat
  | Frame
  | Scroll rat
  | Resize int int rat
  | OrientationChange
  | Submit
  | Input formdata
  | Tick nat
  | Visibility bool

fun step :: "event \<Rightarrow> state \<Rightarrow> state" where
  "step Init s = state_of (init s)"
| "step Destroy s = destroy s"
| "step CreateParticles s = createParticles s"
| "step HandleScroll s = handleScroll s"
| "step HandleResize s = handleResize s"
| "step (Timeout tid) s = fire tid s"
| "step Frame s = frame s"
| "step (Scroll y) s = dispatch ScrollEvent (s\<lparr>scrollY := y\<rparr>)"
| "step (Resize w h r) s =
     dispatch ResizeEvent (s\<lparr>innerWidth := w, innerHeight := h, devicePixelRatio := r\<rparr>)"
| "step OrientationChange s = setTimeout ResizeLater 100 s"
| "step Submit s = ((\<lambda>s1. state_of (submitHandler s1)) ^^ formSubmitListeners s) s"
| "step (Input fd) s = s\<lparr>formFields := fd\<rparr>"
| "step (Tick d) s = s\<lparr>clock := clock s + d\<rparr>"
| "step (Visibility hidden) s = s\<lparr>isDestroyed := hidden\<rparr>"

definition run :: "event list \<Rightarrow> state \<Rightarrow> state" where
  "run es s = fold step es s"

text \<open>
  \<open>destroy\<close> has run at least once: it is the only operation that logs
  \<open>LogDestroying\<close>, and the console only grows.
\<close>

abbreviation tornDown :: "state \<Rightarrow> bool" where
  "tornDown s \<equiv> LogDestroying \<in> set (console s)"

text \<open>
  The events of the controller's own interface and of its callbacks; the
  \<open>visibilitychange\<close> listener, which writes the destroyed flag from outside the class,
  is the one left out.
\<close>

fun controllerEvent :: "event \<Rightarrow> bool" where
  "controllerEvent (Visibility hidden) = False"
| "controllerEvent e = True"

text \<open>
  A page at \<open>DOMContentLoaded\<close>: nothing is scheduled or logged and the window has no
  listener of the controller yet.
\<close>

definition pageLoaded :: "state \<Rightarrow> bool" where
  "pageLoaded s \<longleftrightarrow>
     timers s = [] \<and> frames s = [] \<and> windowListeners s = [] \<and> aborted s = {}
     \<and> abortListeners s = [] \<and> console s = []"

text \<open>
  The reachable states: from a new controller on a loaded page, by any event of the
  controller, and by visibility changes for as long as \<open>destroy\<close> has not run. Once
  it has, tab switches are not followed any more; calls of \<open>init\<close> and \<open>destroy\<close>
  and all callbacks still are. (After a \<open>destroy\<close> the destroyed flag is what keeps
  the cycles of earlier calls of \<open>init\<close> from running: \<open>Date.now()\<close> counts
  milliseconds, so a later \<open>init\<close> can give its cycle the identifier of one that is
  still pending.)
\<close>

inductive reachable :: "state \<Rightarrow> bool" where
  created: "pageLoaded s \<Longrightarrow> reachable (constructor s)"
| event: "reachable s \<Longrightarrow> controllerEvent e \<Longrightarrow> reachable (step e s)"
| visibility: "reachable s \<Longrightarrow> \<not> tornDown s \<Longrightarrow> reachable (step (Visibility hidden) s)"

subsection \<open>A sample page\<close>

text \<open>
  A page with none of the elements the script looks for, and one that has them all: wide
  enough for the base particle count, with two sections to reveal, three navigation links,
  two project cards, two skill cards (one without an icon) and a filled-in form.
\<close>

definition emptyPage :: state where
  "emptyPage =
     \<lparr>isInitialized = False, isDestroyed = False, activeAnimations = {},
      typingController = None, particleContainer = None, elements = {},
      handlers_scroll = None, handlers_resize = None,
      scrollTicking = False, resizeTicking = False, config = default_config,
      console = [], alerts = [], timers = [], frames = [], windowListeners = [],
      clock = 0, nextId = 0, aborted = {}, abortListeners = [],
      aos = Unavailable, aosInitCalls = 0, performanceObserver = Unavailable,
      domIds = {}, innerWidth = 1280, innerHeight = 720, devicePixelRatio = 1, scrollY = 0,
      typingHTML = [], particleNodes = 0, navbarScrolled = False, fadeIns = [],
      anchorClickListeners = [], projectCardListeners = [], skillCardListeners = [],
      formSubmitListeners = 0, hasSubmitBtn = False, btnText = [], btnDisabled = False,
      btnBackground = [], formFields = [], formDefaults = [], scrollPasses = 0\<rparr>"

definition samplePage :: state where
  "samplePage =
     emptyPage
       \<lparr>aos := Works, performanceObserver := Works,
        domIds := {''bgAnimation'', ''typingText'', ''navbar'', ''contactForm''},
        fadeIns := [(400, False), (1600, False)],
        anchorClickListeners := [0, 0, 0], projectCardListeners := [0, 0],
        skillCardListeners := [(True, 0), (False, 0)],
        hasSubmitBtn := True, btnText := ''Kirim Pesan'',
        formFields := form ''A'' ''a@b.co'' ''hi''\<rparr>"

section \<open>Invariants of the reachable states\<close>

text \<open>
  The timeouts that belong to a typing cycle, and among them the reveal loops that are
  suspended on their per-character timeout.
\<close>

fun typingTask :: "task \<Rightarrow> bool" where
  "typingTask (StartCycle c) = True"
| "typingTask (ResolveChar r) = True"
| "typingTask (NextText c) = True"
| "typingTask t = False"

fun revealTask :: "task \<Rightarrow> bool" where
  "revealTask (ResolveChar r) = True"
| "revealTask t = False"

definition typingTimers :: "state \<Rightarrow> timer list" where
  "typingTimers s = filter (\<lambda>t. typingTask (snd (snd t))) (timers s)"

definition revealsInFlight :: "state \<Rightarrow> timer list" where
  "revealsInFlight s = filter (\<lambda>t. revealTask (snd (snd t))) (timers s)"

definition listenersOK :: "state \<Rightarrow> bool" where
  "listenersOK s \<longleftrightarrow>
     (isInitialized s \<longrightarrow>
        (\<exists>hs hr. handlers_scroll s = Some hs \<and> handlers_resize s = Some hr
           \<and> windowListeners s = [(ScrollEvent, hs), (ResizeEvent, hr)]))
     \<and> (\<not> isInitialized s \<longrightarrow> windowListeners s = [])"

definition framesOK :: "state \<Rightarrow> bool" where
  "framesOK s \<longleftrightarrow>
     count_list (frames s) ScrollFrame = (if scrollTicking s then 1 else 0)
     \<and> count_list (frames s) ResizeFrame = (if resizeTicking s then 1 else 0)"

definition typingOK :: "state \<Rightarrow> bool" where
  "typingOK s \<longleftrightarrow>
     (tornDown s \<longrightarrow> isDestroyed s)
     \<and> (\<not> tornDown s \<longrightarrow> length (typingTimers s) \<le> 1)
     \<and> (\<not> tornDown s \<and> \<not> isInitialized s \<longrightarrow> typingTimers s = [])
     \<and> (\<forall>tid due r. (tid, due, ResolveChar r) \<in> set (timers s) \<longrightarrow>
           \<not> tornDown s \<and> typingController s = Some (controller r)
           \<and> (controller r, tid) \<in> set (abortListeners s))
     \<and> (\<forall>ctl. typingController s = Some ctl \<longrightarrow> ctl \<notin> aborted s \<and> ctl < nextId s)
     \<and> (\<forall>ctl \<in> aborted s. ctl < nextId s)"

definition animationsOK :: "state \<Rightarrow> bool" where
  "animationsOK s \<longleftrightarrow>
     (\<not> isInitialized s \<longrightarrow> activeAnimations s = {})
     \<and> (\<forall>a \<in> activeAnimations s. \<forall>b \<in> activeAnimations s. a = b)"



definition invariant :: "state \<Rightarrow> bool" where
  "invariant s \<longleftrightarrow> listenersOK s \<and> framesOK s \<and> typingOK s \<and> animationsOK s"


text \<open>
  The public entry points, called on a state, as the interpreter runs them.
  \<open>handleScroll\<close> and \<open>handleResize\<close> test flags of the controller, set one and request
  a frame: they use no reference that can be \<open>null\<close>, and what their frame callbacks do
  is \<open>scrollFrame_js\<close> and \<open>resizeFrame_js\<close>.
\<close>

datatype entry_point =
    CallInit
  | CallDestroy
  | CallCreateParticles
  | CallHandleScroll
  | CallHandleResize
  | CallValidateForm formdata
  | CallSubmitHandler

fun call :: "entry_point \<Rightarrow> state \<Rightarrow> result" where
  "call CallInit s = init s"
| "call CallDestroy s = destroy_js s"
| "call CallCreateParticles s = createParticles_js s"
| "call CallHandleScroll s = Returns (handleScroll s)"
| "call CallHandleResize s = Returns (handleResize s)"
| "call (CallValidateForm fd) s =
     (case validateForm fd of
        Inl error \<Rightarrow> Throws error s
      | Inr (shown, isValid) \<Rightarrow> Returns (s\<lparr>alerts := alerts s @ shown\<rparr>))"
| "call CallSubmitHandler s = submitHandler s"

text \<open>None of the three fields that \<open>validateForm\<close> reads is a \<open>File\<close>.\<close>

definition textFields :: "formdata \<Rightarrow> bool" where
  "textFields fd \<longleftrightarrow> (\<forall>name \<in> {''name'', ''email'', ''message''}. get fd name \<noteq> Some File)"


text \<open>The form data that an entry point reads, if any.\<close>

fun formRead :: "entry_point \<Rightarrow> state \<Rightarrow> formdata" where
  "formRead (CallValidateForm fd) s = fd"
| "formRead CallSubmitHandler s = formFields s"
| "formRead ep s = []"

text \<open>Sample states: after \<open>init\<close>, and in the middle of the first reveal.\<close>

definition startedPage :: state where
  "startedPage = step Init (constructor samplePage)"

definition typingPage :: state where
  "typingPage = run [Init, Tick 2000, Timeout 0] (constructor samplePage)"

text \<open>
  A run on the sample page: \<open>init\<close>, \<open>destroy\<close> and \<open>init\<close> again within one
  millisecond, so that \<open>Date.now()\<close> gives both cycles the identifier 0; the tab
  becomes visible, which clears the destroyed flag; after the initial delay the two
  start timeouts (numbers 0 and 3) fire.
\<close>

definition twoCycles :: state where
  "twoCycles =
     run [Init, Destroy, Init, Visibility False, Tick 2000, Timeout 0, Timeout 3]
       (constructor samplePage)"

text \<open>A page without any of the elements, on which both collaborators raise.\<close>

definition faultyPage :: state where
  "faultyPage = emptyPage\<lparr>aos := Raises, performanceObserver := Raises\<rparr>"

section \<open>Properties of the regular expression\<close>

lemma runs_iff:
  "r \<in> set (runs p s) \<longleftrightarrow> (\<exists>u. u \<noteq> [] \<and> s = u @ r \<and> list_all p u)"
proof (induction s)
  case Nil
  then show ?case by simp
next
  case (Cons c cs)
  show ?case
  proof
    assume "r \<in> set (runs p (c # cs))"
    then have pc: "p c" and "r = cs \<or> r \<in> set (runs p cs)"
      by (auto split: if_splits)
    then show "\<exists>u. u \<noteq> [] \<and> c # cs = u @ r \<and> list_all p u"
    proof (elim disjE)
      assume "r = cs"
      with pc have "[c] \<noteq> [] \<and> c # cs = [c] @ r \<and> list_all p [c]" by simp
      then show ?thesis by blast
    next
      assume "r \<in> set (runs p cs)"
      with Cons.IH obtain u where "u \<noteq> []" "cs = u @ r" "list_all p u" by blast
      with pc have "c # u \<noteq> [] \<and> c # cs = (c # u) @ r \<and> list_all p (c # u)" by simp
      then show ?thesis by blast
    qed
  next
    assume "\<exists>u. u \<noteq> [] \<and> c # cs = u @ r \<and> list_all p u"
    then obtain u where u: "u \<noteq> []" "c # cs = u @ r" "list_all p u" by blast
    then obtain v where v: "u = c # v" by (cases u) auto
    with u have pc: "p c" and cs: "cs = v @ r" and pv: "list_all p v" by auto
    show "r \<in> set (runs p (c # cs))"
    proof (cases "v = []")
      case True
      with pc cs show ?thesis by simp
    next
      case False
      with cs pv Cons.IH have "r \<in> set (runs p cs)" by blast
      with pc show ?thesis by simp
    qed
  qed
qed

lemma remainders_Lit: "r \<in> set (remainders (Lit a) s) \<longleftrightarrow> s = a # r"
  by (auto split: list.splits if_splits)

lemma remainders_Seq:
  "r \<in> set (remainders (Seq r1 r2) s) \<longleftrightarrow> (\<exists>m \<in> set (remainders r1 s). r \<in> set (remainders r2 m))"
  by auto

lemma test_emailRegex: "test emailRegex s \<longleftrightarrow> emailShape s"
proof
  assume "test emailRegex s"
  then obtain m1 m2 m3 m4 where
    "m1 \<in> set (runs notSpaceOrAt s)" "m1 = 64 # m2" "m3 \<in> set (runs notSpaceOrAt m2)"
    "m3 = 46 # m4" "[] \<in> set (runs notSpaceOrAt m4)"
    unfolding test_def emailRegex_def remainders_Seq remainders_Lit remainders.simps(2)
    by (auto simp: remainders_Lit)
  then obtain l d t where
    "l \<noteq> []" "s = l @ 64 # m2" "list_all notSpaceOrAt l"
    "d \<noteq> []" "m2 = d @ 46 # m4" "list_all notSpaceOrAt d"
    "t \<noteq> []" "m4 = t" "list_all notSpaceOrAt t"
    unfolding runs_iff by auto
  then have "s = l @ [64] @ d @ [46] @ t \<and> l \<noteq> [] \<and> d \<noteq> [] \<and> t \<noteq> []
      \<and> list_all notSpaceOrAt l \<and> list_all notSpaceOrAt d \<and> list_all notSpaceOrAt t"
    by simp
  then show "emailShape s" unfolding emailShape_def by blast
next
  assume "emailShape s"
  then obtain l d t where s: "s = l @ [64] @ d @ [46] @ t" and ne: "l \<noteq> []" "d \<noteq> []" "t \<noteq> []"
    and cl: "list_all notSpaceOrAt l" "list_all notSpaceOrAt d" "list_all notSpaceOrAt t"
    unfolding emailShape_def by blast
  have 1: "64 # d @ 46 # t \<in> set (runs notSpaceOrAt s)"
    unfolding runs_iff using s ne cl by auto
  have 2: "46 # t \<in> set (runs notSpaceOrAt (d @ 46 # t))"
    unfolding runs_iff using ne cl by auto
  have 3: "[] \<in> set (runs notSpaceOrAt t)"
    unfolding runs_iff using ne cl by auto
  have 4: "d @ 46 # t \<in> set (remainders (Lit 64) (64 # d @ 46 # t))"
    and 5: "t \<in> set (remainders (Lit 46) (46 # t))"
    by simp_all
  show "test emailRegex s"
    unfolding test_def emailRegex_def remainders_Seq remainders.simps(2)
    using 1 4 2 5 3 by blast
qed

lemma validateForm_success:
  "validateForm fd = Inr ([], True) \<longleftrightarrow>
     nonEmptyText fd ''name'' \<and> nonEmptyText fd ''email'' \<and> nonEmptyText fd ''message''
     \<and> test emailRegex (emailText fd)"
  unfolding validateForm_def trimmedField_def nonEmptyText_def emailText_def falsy_def
  by (auto split: option.splits entry.splits)

lemma js_simps: "js [] = []" "js (c # cs) = of_char c # js cs"
  by (simp_all add: js_def)

section \<open>What each operation changes\<close>

lemma getElement_cases:
  "getElement ident True s =
     (if ident \<in> elements s then (Some ident, s)
      else if ident \<in> domIds s then (Some ident, s\<lparr>elements := insert ident (elements s)\<rparr>)
      else (None, consoleLog (WarnElementNotFound ident) s))"
  by (simp add: getElement_def)

lemma initPerformanceMonitoring_returns:
  "initPerformanceMonitoring s =
     Returns (if performanceObserver s = Raises then consoleLog LogPerformanceUnavailable s else s)"
  by (simp add: initPerformanceMonitoring_def observeLongTasks_def)

lemma initAOS_returns:
  "initAOS s =
     Returns (case aos s of
                Unavailable \<Rightarrow> consoleLog WarnAOSNotLoaded s
              | Works \<Rightarrow> consoleLog LogAOSInitialized (s\<lparr>aosInitCalls := Suc (aosInitCalls s)\<rparr>)
              | Raises \<Rightarrow> consoleLog (ErrorAOSFailed LibraryError) s)"
  by (cases "aos s") (simp_all add: initAOS_def AOS_init_def)

lemma consoleLog_keeps [simp]:
  "isInitialized (consoleLog m s) = isInitialized s"
  "isDestroyed (consoleLog m s) = isDestroyed s"
  "activeAnimations (consoleLog m s) = activeAnimations s"
  "typingController (consoleLog m s) = typingController s"
  "handlers_scroll (consoleLog m s) = handlers_scroll s"
  "handlers_resize (consoleLog m s) = handlers_resize s"
  "scrollTicking (consoleLog m s) = scrollTicking s"
  "resizeTicking (consoleLog m s) = resizeTicking s"
  "timers (consoleLog m s) = timers s"
  "frames (consoleLog m s) = frames s"
  "windowListeners (consoleLog m s) = windowListeners s"
  "clock (consoleLog m s) = clock s"
  "nextId (consoleLog m s) = nextId s"
  "aborted (consoleLog m s) = aborted s"
  "abortListeners (consoleLog m s) = abortListeners s"
  "typingHTML (consoleLog m s) = typingHTML s"
  "scrollPasses (consoleLog m s) = scrollPasses s"
  "config (consoleLog m s) = config s"
  by (simp_all add: consoleLog_def)

lemma tornDown_log [simp]: "tornDown (consoleLog m s) \<longleftrightarrow> m = LogDestroying \<or> tornDown s"
  by (auto simp: consoleLog_def)

lemma createParticles_keeps [simp]:
  "isInitialized (createParticles s) = isInitialized s"
  "isDestroyed (createParticles s) = isDestroyed s"
  "activeAnimations (createParticles s) = activeAnimations s"
  "typingController (createParticles s) = typingController s"
  "handlers_scroll (createParticles s) = handlers_scroll s"
  "handlers_resize (createParticles s) = handlers_resize s"
  "scrollTicking (createParticles s) = scrollTicking s"
  "resizeTicking (createParticles s) = resizeTicking s"
  "timers (createParticles s) = timers s"
  "frames (createParticles s) = frames s"
  "windowListeners (createParticles s) = windowListeners s"
  "clock (createParticles s) = clock s"
  "nextId (createParticles s) = nextId s"
  "aborted (createParticles s) = aborted s"
  "abortListeners (createParticles s) = abortListeners s"
  "typingHTML (createParticles s) = typingHTML s"
  "scrollPasses (createParticles s) = scrollPasses s"
  "config (createParticles s) = config s"
  "tornDown (createParticles s) = tornDown s"
  by (simp_all add: createParticles_def getElement_cases consoleLog_def Let_def)

lemma updateNavbar_keeps [simp]:
  "isInitialized (updateNavbar s) = isInitialized s"
  "isDestroyed (updateNavbar s) = isDestroyed s"
  "activeAnimations (updateNavbar s) = activeAnimations s"
  "typingController (updateNavbar s) = typingController s"
  "handlers_scroll (updateNavbar s) = handlers_scroll s"
  "handlers_resize (updateNavbar s) = handlers_resize s"
  "scrollTicking (updateNavbar s) = scrollTicking s"
  "resizeTicking (updateNavbar s) = resizeTicking s"
  "timers (updateNavbar s) = timers s"
  "frames (updateNavbar s) = frames s"
  "windowListeners (updateNavbar s) = windowListeners s"
  "clock (updateNavbar s) = clock s"
  "nextId (updateNavbar s) = nextId s"
  "aborted (updateNavbar s) = aborted s"
  "abortListeners (updateNavbar s) = abortListeners s"
  "typingHTML (updateNavbar s) = typingHTML s"
  "scrollPasses (updateNavbar s) = scrollPasses s"
  "config (updateNavbar s) = config s"
  "tornDown (updateNavbar s) = tornDown s"
  by (simp_all add: updateNavbar_def getElement_cases consoleLog_def)

lemma revealOnScroll_keeps [simp]:
  "isInitialized (revealOnScroll s) = isInitialized s"
  "isDestroyed (revealOnScroll s) = isDestroyed s"
  "activeAnimations (revealOnScroll s) = activeAnimations s"
  "typingController (revealOnScroll s) = typingController s"
  "handlers_scroll (revealOnScroll s) = handlers_scroll s"
  "handlers_resize (revealOnScroll s) = handlers_resize s"
  "scrollTicking (revealOnScroll s) = scrollTicking s"
  "resizeTicking (revealOnScroll s) = resizeTicking s"
  "timers (revealOnScroll s) = timers s"
  "frames (revealOnScroll s) = frames s"
  "windowListeners (revealOnScroll s) = windowListeners s"
  "clock (revealOnScroll s) = clock s"
  "nextId (revealOnScroll s) = nextId s"
  "aborted (revealOnScroll s) = aborted s"
  "abortListeners (revealOnScroll s) = abortListeners s"
  "typingHTML (revealOnScroll s) = typingHTML s"
  "scrollPasses (revealOnScroll s) = scrollPasses s"
  "config (revealOnScroll s) = config s"
  "tornDown (revealOnScroll s) = tornDown s"
  by (simp_all add: revealOnScroll_def)

lemma initSmoothScrolling_keeps [simp]:
  "isInitialized (initSmoothScrolling s) = isInitialized s"
  "isDestroyed (initSmoothScrolling s) = isDestroyed s"
  "activeAnimations (initSmoothScrolling s) = activeAnimations s"
  "typingController (initSmoothScrolling s) = typingController s"
  "handlers_scroll (initSmoothScrolling s) = handlers_scroll s"
  "handlers_resize (initSmoothScrolling s) = handlers_resize s"
  "scrollTicking (initSmoothScrolling s) = scrollTicking s"
  "resizeTicking (initSmoothScrolling s) = resizeTicking s"
  "timers (initSmoothScrolling s) = timers s"
  "frames (initSmoothScrolling s) = frames s"
  "windowListeners (initSmoothScrolling s) = windowListeners s"
  "clock (initSmoothScrolling s) = clock s"
  "nextId (initSmoothScrolling s) = nextId s"
  "aborted (initSmoothScrolling s) = aborted s"
  "abortListeners (initSmoothScrolling s) = abortListeners s"
  "typingHTML (initSmoothScrolling s) = typingHTML s"
  "scrollPasses (initSmoothScrolling s) = scrollPasses s"
  "config (initSmoothScrolling s) = config s"
  "tornDown (initSmoothScrolling s) = tornDown s"
  by (simp_all add: initSmoothScrolling_def)

lemma initContactForm_keeps [simp]:
  "isInitialized (initContactForm s) = isInitialized s"
  "isDestroyed (initContactForm s) = isDestroyed s"
  "activeAnimations (initContactForm s) = activeAnimations s"
  "typingController (initContactForm s) = typingController s"
  "handlers_scroll (initContactForm s) = handlers_scroll s"
  "handlers_resize (initContactForm s) = handlers_resize s"
  "scrollTicking (initContactForm s) = scrollTicking s"
  "resizeTicking (initContactForm s) = resizeTicking s"
  "timers (initContactForm s) = timers s"
  "frames (initContactForm s) = frames s"
  "windowListeners (initContactForm s) = windowListeners s"
  "clock (initContactForm s) = clock s"
  "nextId (initContactForm s) = nextId s"
  "aborted (initContactForm s) = aborted s"
  "abortListeners (initContactForm s) = abortListeners s"
  "typingHTML (initContactForm s) = typingHTML s"
  "scrollPasses (initContactForm s) = scrollPasses s"
  "config (initContactForm s) = config s"
  "tornDown (initContactForm s) = tornDown s"
  by (simp_all add: initContactForm_def getElement_cases consoleLog_def)

lemma initCardEffects_keeps [simp]:
  "isInitialized (initCardEffects s) = isInitialized s"
  "isDestroyed (initCardEffects s) = isDestroyed s"
  "activeAnimations (initCardEffects s) = activeAnimations s"
  "typingController (initCardEffects s) = typingController s"
  "handlers_scroll (initCardEffects s) = handlers_scroll s"
  "handlers_resize (initCardEffects s) = handlers_resize s"
  "scrollTicking (initCardEffects s) = scrollTicking s"
  "resizeTicking (initCardEffects s) = resizeTicking s"
  "timers (initCardEffects s) = timers s"
  "frames (initCardEffects s) = frames s"
  "windowListeners (initCardEffects s) = windowListeners s"
  "clock (initCardEffects s) = clock s"
  "nextId (initCardEffects s) = nextId s"
  "aborted (initCardEffects s) = aborted s"
  "abortListeners (initCardEffects s) = abortListeners s"
  "typingHTML (initCardEffects s) = typingHTML s"
  "scrollPasses (initCardEffects s) = scrollPasses s"
  "config (initCardEffects s) = config s"
  "tornDown (initCardEffects s) = tornDown s"
  by (simp_all add: initCardEffects_def)

lemma initAOS_keeps [simp]:
  "isInitialized (state_of (initAOS s)) = isInitialized s"
  "isDestroyed (state_of (initAOS s)) = isDestroyed s"
  "activeAnimations (state_of (initAOS s)) = activeAnimations s"
  "typingController (state_of (initAOS s)) = typingController s"
  "handlers_scroll (state_of (initAOS s)) = handlers_scroll s"
  "handlers_resize (state_of (initAOS s)) = handlers_resize s"
  "scrollTicking (state_of (initAOS s)) = scrollTicking s"
  "resizeTicking (state_of (initAOS s)) = resizeTicking s"
  "timers (state_of (initAOS s)) = timers s"
  "frames (state_of (initAOS s)) = frames s"
  "windowListeners (state_of (initAOS s)) = windowListeners s"
  "clock (state_of (initAOS s)) = clock s"
  "nextId (state_of (initAOS s)) = nextId s"
  "aborted (state_of (initAOS s)) = aborted s"
  "abortListeners (state_of (initAOS s)) = abortListeners s"
  "typingHTML (state_of (initAOS s)) = typingHTML s"
  "scrollPasses (state_of (initAOS s)) = scrollPasses s"
  "config (state_of (initAOS s)) = config s"
  "tornDown (state_of (initAOS s)) = tornDown s"
  by (simp_all add: initAOS_returns split: collaborator.splits)

lemma initPerformanceMonitoring_keeps [simp]:
  "isInitialized (state_of (initPerformanceMonitoring s)) = isInitialized s"
  "isDestroyed (state_of (initPerformanceMonitoring s)) = isDestroyed s"
  "activeAnimations (state_of (initPerformanceMonitoring s)) = activeAnimations s"
  "typingController (state_of (initPerformanceMonitoring s)) = typingController s"
  "handlers_scroll (state_of (initPerformanceMonitoring s)) = handlers_scroll s"
  "handlers_resize (state_of (initPerformanceMonitoring s)) = handlers_resize s"
  "scrollTicking (state_of (initPerformanceMonitoring s)) = scrollTicking s"
  "resizeTicking (state_of (initPerformanceMonitoring s)) = resizeTicking s"
  "timers (state_of (initPerformanceMonitoring s)) = timers s"
  "frames (state_of (initPerformanceMonitoring s)) = frames s"
  "windowListeners (state_of (initPerformanceMonitoring s)) = windowListeners s"
  "clock (state_of (initPerformanceMonitoring s)) = clock s"
  "nextId (state_of (initPerformanceMonitoring s)) = nextId s"
  "aborted (state_of (initPerformanceMonitoring s)) = aborted s"
  "abortListeners (state_of (initPerformanceMonitoring s)) = abortListeners s"
  "typingHTML (state_of (initPerformanceMonitoring s)) = typingHTML s"
  "scrollPasses (state_of (initPerformanceMonitoring s)) = scrollPasses s"
  "config (state_of (initPerformanceMonitoring s)) = config s"
  "tornDown (state_of (initPerformanceMonitoring s)) = tornDown s"
  by (simp_all add: initPerformanceMonitoring_returns)

lemma formReset_keeps [simp]:
  "isInitialized (formReset t s) = isInitialized s"
  "isDestroyed (formReset t s) = isDestroyed s"
  "activeAnimations (formReset t s) = activeAnimations s"
  "typingController (formReset t s) = typingController s"
  "handlers_scroll (formReset t s) = handlers_scroll s"
  "handlers_resize (formReset t s) = handlers_resize s"
  "scrollTicking (formReset t s) = scrollTicking s"
  "resizeTicking (formReset t s) = resizeTicking s"
  "timers (formReset t s) = timers s"
  "frames (formReset t s) = frames s"
  "windowListeners (formReset t s) = windowListeners s"
  "clock (formReset t s) = clock s"
  "nextId (formReset t s) = nextId s"
  "aborted (formReset t s) = aborted s"
  "abortListeners (formReset t s) = abortListeners s"
  "typingHTML (formReset t s) = typingHTML s"
  "scrollPasses (formReset t s) = scrollPasses s"
  "config (formReset t s) = config s"
  "tornDown (formReset t s) = tornDown s"
  by (simp_all add: formReset_def)

lemma formErrorReset_keeps [simp]:
  "isInitialized (formErrorReset t s) = isInitialized s"
  "isDestroyed (formErrorReset t s) = isDestroyed s"
  "activeAnimations (formErrorReset t s) = activeAnimations s"
  "typingController (formErrorReset t s) = typingController s"
  "handlers_scroll (formErrorReset t s) = handlers_scroll s"
  "handlers_resize (formErrorReset t s) = handlers_resize s"
  "scrollTicking (formErrorReset t s) = scrollTicking s"
  "resizeTicking (formErrorReset t s) = resizeTicking s"
  "timers (formErrorReset t s) = timers s"
  "frames (formErrorReset t s) = frames s"
  "windowListeners (formErrorReset t s) = windowListeners s"
  "clock (formErrorReset t s) = clock s"
  "nextId (formErrorReset t s) = nextId s"
  "aborted (formErrorReset t s) = aborted s"
  "abortListeners (formErrorReset t s) = abortListeners s"
  "typingHTML (formErrorReset t s) = typingHTML s"
  "scrollPasses (formErrorReset t s) = scrollPasses s"
  "config (formErrorReset t s) = config s"
  "tornDown (formErrorReset t s) = tornDown s"
  by (simp_all add: formErrorReset_def)

lemma setTimeout_keeps [simp]:
  "isInitialized (setTimeout cb d s) = isInitialized s"
  "isDestroyed (setTimeout cb d s) = isDestroyed s"
  "activeAnimations (setTimeout cb d s) = activeAnimations s"
  "typingController (setTimeout cb d s) = typingController s"
  "handlers_scroll (setTimeout cb d s) = handlers_scroll s"
  "handlers_resize (setTimeout cb d s) = handlers_resize s"
  "scrollTicking (setTimeout cb d s) = scrollTicking s"
  "resizeTicking (setTimeout cb d s) = resizeTicking s"
  "frames (setTimeout cb d s) = frames s"
  "windowListeners (setTimeout cb d s) = windowListeners s"
  "clock (setTimeout cb d s) = clock s"
  "aborted (setTimeout cb d s) = aborted s"
  "abortListeners (setTimeout cb d s) = abortListeners s"
  "typingHTML (setTimeout cb d s) = typingHTML s"
  "scrollPasses (setTimeout cb d s) = scrollPasses s"
  "config (setTimeout cb d s) = config s"
  "tornDown (setTimeout cb d s) = tornDown s"
  by (simp_all add: setTimeout_def)

lemma clearTimeout_keeps [simp]:
  "isInitialized (clearTimeout tid s) = isInitialized s"
  "isDestroyed (clearTimeout tid s) = isDestroyed s"
  "activeAnimations (clearTimeout tid s) = activeAnimations s"
  "typingController (clearTimeout tid s) = typingController s"
  "handlers_scroll (clearTimeout tid s) = handlers_scroll s"
  "handlers_resize (clearTimeout tid s) = handlers_resize s"
  "scrollTicking (clearTimeout tid s) = scrollTicking s"
  "resizeTicking (clearTimeout tid s) = resizeTicking s"
  "frames (clearTimeout tid s) = frames s"
  "windowListeners (clearTimeout tid s) = windowListeners s"
  "clock (clearTimeout tid s) = clock s"
  "nextId (clearTimeout tid s) = nextId s"
  "aborted (clearTimeout tid s) = aborted s"
  "abortListeners (clearTimeout tid s) = abortListeners s"
  "typingHTML (clearTimeout tid s) = typingHTML s"
  "scrollPasses (clearTimeout tid s) = scrollPasses s"
  "config (clearTimeout tid s) = config s"
  "tornDown (clearTimeout tid s) = tornDown s"
  by (simp_all add: clearTimeout_def)


lemma fold_abortListener:
  "fold (abortListener ctl) ls s = s\<lparr>timers := filter (\<lambda>t. (ctl, fst t) \<notin> set ls) (timers s)\<rparr>"
proof (induction ls arbitrary: s)
  case Nil
  show ?case by simp
next
  case (Cons l ls)
  show ?case
  proof (cases "fst l = ctl")
    case True
    have "fold (abortListener ctl) (l # ls) s = fold (abortListener ctl) ls (clearTimeout (snd l) s)"
      by (simp add: abortListener_def True)
    also have "\<dots> = (clearTimeout (snd l) s)
        \<lparr>timers := filter (\<lambda>t. (ctl, fst t) \<notin> set ls) (timers (clearTimeout (snd l) s))\<rparr>"
      by (rule Cons.IH)
    also have "\<dots> = s\<lparr>timers := filter (\<lambda>t. (ctl, fst t) \<notin> set (l # ls)) (timers s)\<rparr>"
      using True by (cases l) (auto simp: clearTimeout_def intro: filter_cong)
    finally show ?thesis .
  next
    case False
    have "fold (abortListener ctl) (l # ls) s = fold (abortListener ctl) ls s"
      by (simp add: abortListener_def False)
    also have "\<dots> = s\<lparr>timers := filter (\<lambda>t. (ctl, fst t) \<notin> set ls) (timers s)\<rparr>"
      by (rule Cons.IH)
    also have "\<dots> = s\<lparr>timers := filter (\<lambda>t. (ctl, fst t) \<notin> set (l # ls)) (timers s)\<rparr>"
      using False by (cases l) (auto intro: filter_cong)
    finally show ?thesis .
  qed
qed

lemma abort_eq:
  "abort ctl s =
     (if ctl \<in> aborted s then s
      else s\<lparr>aborted := insert ctl (aborted s),
             timers := filter (\<lambda>t. (ctl, fst t) \<notin> set (abortListeners s)) (timers s)\<rparr>)"
  by (simp add: abort_def fold_abortListener)


lemma fold_keeps: "(\<And>x s. g (f x s) = g s) \<Longrightarrow> g (fold f xs s) = g s"
  by (induction xs arbitrary: s) simp_all

lemma funpow_keeps: "(\<And>s. g (f s) = g s) \<Longrightarrow> g ((f ^^ n) s) = g s"
  by (induction n) simp_all

lemma fold_preserves: "(\<And>x s. P s \<Longrightarrow> P (f x s)) \<Longrightarrow> P s \<Longrightarrow> P (fold f xs s)"
  by (induction xs arbitrary: s) simp_all

lemma funpow_preserves: "(\<And>s. P s \<Longrightarrow> P (f s)) \<Longrightarrow> P s \<Longrightarrow> P ((f ^^ n) s)"
  by (induction n) simp_all

lemma handleScroll_keeps [simp]:
  "isInitialized (handleScroll s) = isInitialized s"
  "isDestroyed (handleScroll s) = isDestroyed s"
  "activeAnimations (handleScroll s) = activeAnimations s"
  "typingController (handleScroll s) = typingController s"
  "handlers_scroll (handleScroll s) = handlers_scroll s"
  "handlers_resize (handleScroll s) = handlers_resize s"
  "resizeTicking (handleScroll s) = resizeTicking s"
  "timers (handleScroll s) = timers s"
  "windowListeners (handleScroll s) = windowListeners s"
  "clock (handleScroll s) = clock s"
  "nextId (handleScroll s) = nextId s"
  "aborted (handleScroll s) = aborted s"
  "abortListeners (handleScroll s) = abortListeners s"
  "typingHTML (handleScroll s) = typingHTML s"
  "scrollPasses (handleScroll s) = scrollPasses s"
  "config (handleScroll s) = config s"
  "tornDown (handleScroll s) = tornDown s"
  by (simp_all add: handleScroll_def)

lemma handleResize_keeps [simp]:
  "isInitialized (handleResize s) = isInitialized s"
  "isDestroyed (handleResize s) = isDestroyed s"
  "activeAnimations (handleResize s) = activeAnimations s"
  "typingController (handleResize s) = typingController s"
  "handlers_scroll (handleResize s) = handlers_scroll s"
  "handlers_resize (handleResize s) = handlers_resize s"
  "scrollTicking (handleResize s) = scrollTicking s"
  "timers (handleResize s) = timers s"
  "windowListeners (handleResize s) = windowListeners s"
  "clock (handleResize s) = clock s"
  "nextId (handleResize s) = nextId s"
  "aborted (handleResize s) = aborted s"
  "abortListeners (handleResize s) = abortListeners s"
  "typingHTML (handleResize s) = typingHTML s"
  "scrollPasses (handleResize s) = scrollPasses s"
  "config (handleResize s) = config s"
  "tornDown (handleResize s) = tornDown s"
  by (simp_all add: handleResize_def)

lemma scrollFrame_keeps [simp]:
  "isInitialized (scrollFrame s) = isInitialized s"
  "isDestroyed (scrollFrame s) = isDestroyed s"
  "activeAnimations (scrollFrame s) = activeAnimations s"
  "typingController (scrollFrame s) = typingController s"
  "handlers_scroll (scrollFrame s) = handlers_scroll s"
  "handlers_resize (scrollFrame s) = handlers_resize s"
  "resizeTicking (scrollFrame s) = resizeTicking s"
  "timers (scrollFrame s) = timers s"
  "frames (scrollFrame s) = frames s"
  "windowListeners (scrollFrame s) = windowListeners s"
  "clock (scrollFrame s) = clock s"
  "nextId (scrollFrame s) = nextId s"
  "aborted (scrollFrame s) = aborted s"
  "abortListeners (scrollFrame s) = abortListeners s"
  "typingHTML (scrollFrame s) = typingHTML s"
  "config (scrollFrame s) = config s"
  "tornDown (scrollFrame s) = tornDown s"
  by (simp_all add: scrollFrame_def Let_def)

lemma resizeFrame_keeps [simp]:
  "isInitialized (resizeFrame s) = isInitialized s"
  "isDestroyed (resizeFrame s) = isDestroyed s"
  "activeAnimations (resizeFrame s) = activeAnimations s"
  "typingController (resizeFrame s) = typingController s"
  "handlers_scroll (resizeFrame s) = handlers_scroll s"
  "handlers_resize (resizeFrame s) = handlers_resize s"
  "scrollTicking (resizeFrame s) = scrollTicking s"
  "timers (resizeFrame s) = timers s"
  "frames (resizeFrame s) = frames s"
  "windowListeners (resizeFrame s) = windowListeners s"
  "clock (resizeFrame s) = clock s"
  "nextId (resizeFrame s) = nextId s"
  "aborted (resizeFrame s) = aborted s"
  "abortListeners (resizeFrame s) = abortListeners s"
  "typingHTML (resizeFrame s) = typingHTML s"
  "scrollPasses (resizeFrame s) = scrollPasses s"
  "config (resizeFrame s) = config s"
  "tornDown (resizeFrame s) = tornDown s"
  by (simp_all add: resizeFrame_def Let_def split: option.splits)

lemma revealLoop_keeps [simp]:
  "isInitialized (snd (revealLoop r s)) = isInitialized s"
  "isDestroyed (snd (revealLoop r s)) = isDestroyed s"
  "activeAnimations (snd (revealLoop r s)) = activeAnimations s"
  "typingController (snd (revealLoop r s)) = typingController s"
  "handlers_scroll (snd (revealLoop r s)) = handlers_scroll s"
  "handlers_resize (snd (revealLoop r s)) = handlers_resize s"
  "scrollTicking (snd (revealLoop r s)) = scrollTicking s"
  "resizeTicking (snd (revealLoop r s)) = resizeTicking s"
  "frames (snd (revealLoop r s)) = frames s"
  "windowListeners (snd (revealLoop r s)) = windowListeners s"
  "clock (snd (revealLoop r s)) = clock s"
  "aborted (snd (revealLoop r s)) = aborted s"
  "scrollPasses (snd (revealLoop r s)) = scrollPasses s"
  "config (snd (revealLoop r s)) = config s"
  "tornDown (snd (revealLoop r s)) = tornDown s"
  by (simp_all add: revealLoop_def Let_def split: option.splits)

lemma typeWriter_keeps [simp]:
  "isInitialized (snd (typeWriter c t ms s)) = isInitialized s"
  "isDestroyed (snd (typeWriter c t ms s)) = isDestroyed s"
  "activeAnimations (snd (typeWriter c t ms s)) = activeAnimations s"
  "handlers_scroll (snd (typeWriter c t ms s)) = handlers_scroll s"
  "handlers_resize (snd (typeWriter c t ms s)) = handlers_resize s"
  "scrollTicking (snd (typeWriter c t ms s)) = scrollTicking s"
  "resizeTicking (snd (typeWriter c t ms s)) = resizeTicking s"
  "frames (snd (typeWriter c t ms s)) = frames s"
  "windowListeners (snd (typeWriter c t ms s)) = windowListeners s"
  "clock (snd (typeWriter c t ms s)) = clock s"
  "aborted (snd (typeWriter c t ms s)) = aborted s"
  "scrollPasses (snd (typeWriter c t ms s)) = scrollPasses s"
  "config (snd (typeWriter c t ms s)) = config s"
  "tornDown (snd (typeWriter c t ms s)) = tornDown s"
  by (simp_all add: typeWriter_def Let_def)

lemma afterTypeWriter_keeps [simp]:
  "isInitialized (afterTypeWriter c r) = isInitialized (snd r)"
  "isDestroyed (afterTypeWriter c r) = isDestroyed (snd r)"
  "activeAnimations (afterTypeWriter c r) = activeAnimations (snd r)"
  "typingController (afterTypeWriter c r) = typingController (snd r)"
  "handlers_scroll (afterTypeWriter c r) = handlers_scroll (snd r)"
  "handlers_resize (afterTypeWriter c r) = handlers_resize (snd r)"
  "scrollTicking (afterTypeWriter c r) = scrollTicking (snd r)"
  "resizeTicking (afterTypeWriter c r) = resizeTicking (snd r)"
  "frames (afterTypeWriter c r) = frames (snd r)"
  "windowListeners (afterTypeWriter c r) = windowListeners (snd r)"
  "clock (afterTypeWriter c r) = clock (snd r)"
  "aborted (afterTypeWriter c r) = aborted (snd r)"
  "abortListeners (afterTypeWriter c r) = abortListeners (snd r)"
  "typingHTML (afterTypeWriter c r) = typingHTML (snd r)"
  "scrollPasses (afterTypeWriter c r) = scrollPasses (snd r)"
  "config (afterTypeWriter c r) = config (snd r)"
  "tornDown (afterTypeWriter c r) = tornDown (snd r)"
  by (cases r; simp add: afterTypeWriter_def split: option.splits)+

lemma runCycle_keeps [simp]:
  "isInitialized (runCycle c s) = isInitialized s"
  "isDestroyed (runCycle c s) = isDestroyed s"
  "activeAnimations (runCycle c s) = activeAnimations s"
  "handlers_scroll (runCycle c s) = handlers_scroll s"
  "handlers_resize (runCycle c s) = handlers_resize s"
  "scrollTicking (runCycle c s) = scrollTicking s"
  "resizeTicking (runCycle c s) = resizeTicking s"
  "frames (runCycle c s) = frames s"
  "windowListeners (runCycle c s) = windowListeners s"
  "clock (runCycle c s) = clock s"
  "aborted (runCycle c s) = aborted s"
  "scrollPasses (runCycle c s) = scrollPasses s"
  "config (runCycle c s) = config s"
  "tornDown (runCycle c s) = tornDown s"
  by (simp_all add: runCycle_def)

lemma formSent_keeps [simp]:
  "isInitialized (formSent t s) = isInitialized s"
  "isDestroyed (formSent t s) = isDestroyed s"
  "activeAnimations (formSent t s) = activeAnimations s"
  "typingController (formSent t s) = typingController s"
  "handlers_scroll (formSent t s) = handlers_scroll s"
  "handlers_resize (formSent t s) = handlers_resize s"
  "scrollTicking (formSent t s) = scrollTicking s"
  "resizeTicking (formSent t s) = resizeTicking s"
  "frames (formSent t s) = frames s"
  "windowListeners (formSent t s) = windowListeners s"
  "clock (formSent t s) = clock s"
  "aborted (formSent t s) = aborted s"
  "abortListeners (formSent t s) = abortListeners s"
  "typingHTML (formSent t s) = typingHTML s"
  "scrollPasses (formSent t s) = scrollPasses s"
  "config (formSent t s) = config s"
  "tornDown (formSent t s) = tornDown s"
  by (simp_all add: formSent_def)

lemma runTask_keeps [simp]:
  "isInitialized (runTask cb s) = isInitialized s"
  "isDestroyed (runTask cb s) = isDestroyed s"
  "activeAnimations (runTask cb s) = activeAnimations s"
  "handlers_scroll (runTask cb s) = handlers_scroll s"
  "handlers_resize (runTask cb s) = handlers_resize s"
  "scrollTicking (runTask cb s) = scrollTicking s"
  "windowListeners (runTask cb s) = windowListeners s"
  "clock (runTask cb s) = clock s"
  "aborted (runTask cb s) = aborted s"
  "scrollPasses (runTask cb s) = scrollPasses s"
  "config (runTask cb s) = config s"
  "tornDown (runTask cb s) = tornDown s"
  by (cases cb; simp)+

lemma fire_keeps [simp]:
  "isInitialized (fire tid s) = isInitialized s"
  "isDestroyed (fire tid s) = isDestroyed s"
  "activeAnimations (fire tid s) = activeAnimations s"
  "handlers_scroll (fire tid s) = handlers_scroll s"
  "handlers_resize (fire tid s) = handlers_resize s"
  "scrollTicking (fire tid s) = scrollTicking s"
  "windowListeners (fire tid s) = windowListeners s"
  "clock (fire tid s) = clock s"
  "aborted (fire tid s) = aborted s"
  "scrollPasses (fire tid s) = scrollPasses s"
  "config (fire tid s) = config s"
  "tornDown (fire tid s) = tornDown s"
  by (simp_all add: fire_def split: option.splits)

lemma runFrameCallback_keeps [simp]:
  "isInitialized (runFrameCallback f s) = isInitialized s"
  "isDestroyed (runFrameCallback f s) = isDestroyed s"
  "activeAnimations (runFrameCallback f s) = activeAnimations s"
  "typingController (runFrameCallback f s) = typingController s"
  "handlers_scroll (runFrameCallback f s) = handlers_scroll s"
  "handlers_resize (runFrameCallback f s) = handlers_resize s"
  "timers (runFrameCallback f s) = timers s"
  "frames (runFrameCallback f s) = frames s"
  "windowListeners (runFrameCallback f s) = windowListeners s"
  "clock (runFrameCallback f s) = clock s"
  "nextId (runFrameCallback f s) = nextId s"
  "aborted (runFrameCallback f s) = aborted s"
  "abortListeners (runFrameCallback f s) = abortListeners s"
  "typingHTML (runFrameCallback f s) = typingHTML s"
  "config (runFrameCallback f s) = config s"
  "tornDown (runFrameCallback f s) = tornDown s"
  by (cases f; simp)+

lemma frame_keeps [simp]:
  "isInitialized (frame s) = isInitialized s"
  "isDestroyed (frame s) = isDestroyed s"
  "activeAnimations (frame s) = activeAnimations s"
  "typingController (frame s) = typingController s"
  "handlers_scroll (frame s) = handlers_scroll s"
  "handlers_resize (frame s) = handlers_resize s"
  "timers (frame s) = timers s"
  "windowListeners (frame s) = windowListeners s"
  "clock (frame s) = clock s"
  "nextId (frame s) = nextId s"
  "aborted (frame s) = aborted s"
  "abortListeners (frame s) = abortListeners s"
  "typingHTML (frame s) = typingHTML s"
  "config (frame s) = config s"
  "tornDown (frame s) = tornDown s"
  by (simp_all add: frame_def fold_keeps fold_keeps [where g = tornDown])

lemma callListener_keeps [simp]:
  "isInitialized (callListener ev l s) = isInitialized s"
  "isDestroyed (callListener ev l s) = isDestroyed s"
  "activeAnimations (callListener ev l s) = activeAnimations s"
  "typingController (callListener ev l s) = typingController s"
  "handlers_scroll (callListener ev l s) = handlers_scroll s"
  "handlers_resize (callListener ev l s) = handlers_resize s"
  "timers (callListener ev l s) = timers s"
  "windowListeners (callListener ev l s) = windowListeners s"
  "clock (callListener ev l s) = clock s"
  "nextId (callListener ev l s) = nextId s"
  "aborted (callListener ev l s) = aborted s"
  "abortListeners (callListener ev l s) = abortListeners s"
  "typingHTML (callListener ev l s) = typingHTML s"
  "scrollPasses (callListener ev l s) = scrollPasses s"
  "config (callListener ev l s) = config s"
  "tornDown (callListener ev l s) = tornDown s"
  by (cases l; rename_tac a b; case_tac a; simp)+

lemma dispatch_keeps [simp]:
  "isInitialized (dispatch ev s) = isInitialized s"
  "isDestroyed (dispatch ev s) = isDestroyed s"
  "activeAnimations (dispatch ev s) = activeAnimations s"
  "typingController (dispatch ev s) = typingController s"
  "handlers_scroll (dispatch ev s) = handlers_scroll s"
  "handlers_resize (dispatch ev s) = handlers_resize s"
  "timers (dispatch ev s) = timers s"
  "windowListeners (dispatch ev s) = windowListeners s"
  "clock (dispatch ev s) = clock s"
  "nextId (dispatch ev s) = nextId s"
  "aborted (dispatch ev s) = aborted s"
  "abortListeners (dispatch ev s) = abortListeners s"
  "typingHTML (dispatch ev s) = typingHTML s"
  "scrollPasses (dispatch ev s) = scrollPasses s"
  "config (dispatch ev s) = config s"
  "tornDown (dispatch ev s) = tornDown s"
  by (simp_all add: dispatch_def fold_keeps fold_keeps [where g = tornDown])

lemma submitHandler_keeps [simp]:
  "isInitialized (state_of (submitHandler s)) = isInitialized s"
  "isDestroyed (state_of (submitHandler s)) = isDestroyed s"
  "activeAnimations (state_of (submitHandler s)) = activeAnimations s"
  "typingController (state_of (submitHandler s)) = typingController s"
  "handlers_scroll (state_of (submitHandler s)) = handlers_scroll s"
  "handlers_resize (state_of (submitHandler s)) = handlers_resize s"
  "scrollTicking (state_of (submitHandler s)) = scrollTicking s"
  "resizeTicking (state_of (submitHandler s)) = resizeTicking s"
  "frames (state_of (submitHandler s)) = frames s"
  "windowListeners (state_of (submitHandler s)) = windowListeners s"
  "clock (state_of (submitHandler s)) = clock s"
  "aborted (state_of (submitHandler s)) = aborted s"
  "abortListeners (state_of (submitHandler s)) = abortListeners s"
  "typingHTML (state_of (submitHandler s)) = typingHTML s"
  "scrollPasses (state_of (submitHandler s)) = scrollPasses s"
  "config (state_of (submitHandler s)) = config s"
  "tornDown (state_of (submitHandler s)) = tornDown s"
  by (simp_all add: submitHandler_def Let_def split: sum.splits prod.splits)

lemma initTypingAnimation_keeps [simp]:
  "isInitialized (initTypingAnimation s) = isInitialized s"
  "isDestroyed (initTypingAnimation s) = isDestroyed s"
  "typingController (initTypingAnimation s) = typingController s"
  "handlers_scroll (initTypingAnimation s) = handlers_scroll s"
  "handlers_resize (initTypingAnimation s) = handlers_resize s"
  "scrollTicking (initTypingAnimation s) = scrollTicking s"
  "resizeTicking (initTypingAnimation s) = resizeTicking s"
  "frames (initTypingAnimation s) = frames s"
  "windowListeners (initTypingAnimation s) = windowListeners s"
  "clock (initTypingAnimation s) = clock s"
  "aborted (initTypingAnimation s) = aborted s"
  "abortListeners (initTypingAnimation s) = abortListeners s"
  "typingHTML (initTypingAnimation s) = typingHTML s"
  "scrollPasses (initTypingAnimation s) = scrollPasses s"
  "config (initTypingAnimation s) = config s"
  "tornDown (initTypingAnimation s) = tornDown s"
  by (simp_all add: initTypingAnimation_def getElement_cases consoleLog_def Let_def)

lemma addEventListener_keeps [simp]:
  "isInitialized (addEventListener ev h s) = isInitialized s"
  "isDestroyed (addEventListener ev h s) = isDestroyed s"
  "activeAnimations (addEventListener ev h s) = activeAnimations s"
  "typingController (addEventListener ev h s) = typingController s"
  "handlers_scroll (addEventListener ev h s) = handlers_scroll s"
  "handlers_resize (addEventListener ev h s) = handlers_resize s"
  "scrollTicking (addEventListener ev h s) = scrollTicking s"
  "resizeTicking (addEventListener ev h s) = resizeTicking s"
  "timers (addEventListener ev h s) = timers s"
  "frames (addEventListener ev h s) = frames s"
  "clock (addEventListener ev h s) = clock s"
  "nextId (addEventListener ev h s) = nextId s"
  "aborted (addEventListener ev h s) = aborted s"
  "abortListeners (addEventListener ev h s) = abortListeners s"
  "typingHTML (addEventListener ev h s) = typingHTML s"
  "scrollPasses (addEventListener ev h s) = scrollPasses s"
  "config (addEventListener ev h s) = config s"
  "tornDown (addEventListener ev h s) = tornDown s"
  by (simp_all add: addEventListener_def)

lemma removeEventListener_keeps [simp]:
  "isInitialized (removeEventListener ev h s) = isInitialized s"
  "isDestroyed (removeEventListener ev h s) = isDestroyed s"
  "activeAnimations (removeEventListener ev h s) = activeAnimations s"
  "typingController (removeEventListener ev h s) = typingController s"
  "handlers_scroll (removeEventListener ev h s) = handlers_scroll s"
  "handlers_resize (removeEventListener ev h s) = handlers_resize s"
  "scrollTicking (removeEventListener ev h s) = scrollTicking s"
  "resizeTicking (removeEventListener ev h s) = resizeTicking s"
  "timers (removeEventListener ev h s) = timers s"
  "frames (removeEventListener ev h s) = frames s"
  "clock (removeEventListener ev h s) = clock s"
  "nextId (removeEventListener ev h s) = nextId s"
  "aborted (removeEventListener ev h s) = aborted s"
  "abortListeners (removeEventListener ev h s) = abortListeners s"
  "typingHTML (removeEventListener ev h s) = typingHTML s"
  "scrollPasses (removeEventListener ev h s) = scrollPasses s"
  "config (removeEventListener ev h s) = config s"
  "tornDown (removeEventListener ev h s) = tornDown s"
  by (simp_all add: removeEventListener_def)

lemma registerHandlers_keeps [simp]:
  "isDestroyed (registerHandlers s) = isDestroyed s"
  "activeAnimations (registerHandlers s) = activeAnimations s"
  "typingController (registerHandlers s) = typingController s"
  "scrollTicking (registerHandlers s) = scrollTicking s"
  "resizeTicking (registerHandlers s) = resizeTicking s"
  "timers (registerHandlers s) = timers s"
  "frames (registerHandlers s) = frames s"
  "clock (registerHandlers s) = clock s"
  "aborted (registerHandlers s) = aborted s"
  "abortListeners (registerHandlers s) = abortListeners s"
  "typingHTML (registerHandlers s) = typingHTML s"
  "scrollPasses (registerHandlers s) = scrollPasses s"
  "config (registerHandlers s) = config s"
  "tornDown (registerHandlers s) = tornDown s"
  by (simp_all add: registerHandlers_def Let_def)

lemma removeHandlers_keeps [simp]:
  "isInitialized (removeHandlers s) = isInitialized s"
  "isDestroyed (removeHandlers s) = isDestroyed s"
  "activeAnimations (removeHandlers s) = activeAnimations s"
  "typingController (removeHandlers s) = typingController s"
  "handlers_scroll (removeHandlers s) = handlers_scroll s"
  "handlers_resize (removeHandlers s) = handlers_resize s"
  "scrollTicking (removeHandlers s) = scrollTicking s"
  "resizeTicking (removeHandlers s) = resizeTicking s"
  "timers (removeHandlers s) = timers s"
  "frames (removeHandlers s) = frames s"
  "clock (removeHandlers s) = clock s"
  "nextId (removeHandlers s) = nextId s"
  "aborted (removeHandlers s) = aborted s"
  "abortListeners (removeHandlers s) = abortListeners s"
  "typingHTML (removeHandlers s) = typingHTML s"
  "scrollPasses (removeHandlers s) = scrollPasses s"
  "config (removeHandlers s) = config s"
  "tornDown (removeHandlers s) = tornDown s"
  by (simp_all add: removeHandlers_def Let_def split: option.splits)

lemma stopTyping_keeps [simp]:
  "isInitialized (stopTyping s) = isInitialized s"
  "isDestroyed (stopTyping s) = isDestroyed s"
  "activeAnimations (stopTyping s) = activeAnimations s"
  "handlers_scroll (stopTyping s) = handlers_scroll s"
  "handlers_resize (stopTyping s) = handlers_resize s"
  "scrollTicking (stopTyping s) = scrollTicking s"
  "resizeTicking (stopTyping s) = resizeTicking s"
  "frames (stopTyping s) = frames s"
  "windowListeners (stopTyping s) = windowListeners s"
  "clock (stopTyping s) = clock s"
  "nextId (stopTyping s) = nextId s"
  "abortListeners (stopTyping s) = abortListeners s"
  "typingHTML (stopTyping s) = typingHTML s"
  "scrollPasses (stopTyping s) = scrollPasses s"
  "config (stopTyping s) = config s"
  "tornDown (stopTyping s) = tornDown s"
  by (simp_all add: stopTyping_def abort_eq split: option.splits)

lemma destroy_keeps [simp]:
  "handlers_scroll (destroy s) = handlers_scroll s"
  "handlers_resize (destroy s) = handlers_resize s"
  "scrollTicking (destroy s) = scrollTicking s"
  "resizeTicking (destroy s) = resizeTicking s"
  "frames (destroy s) = frames s"
  "clock (destroy s) = clock s"
  "nextId (destroy s) = nextId s"
  "abortListeners (destroy s) = abortListeners s"
  "typingHTML (destroy s) = typingHTML s"
  "scrollPasses (destroy s) = scrollPasses s"
  "config (destroy s) = config s"
  by (simp_all add: destroy_def Let_def)


lemma createParticles_js_eq: "createParticles_js s = Returns (createParticles s)"
  by (simp add: createParticles_js_def createParticles_def getElement_cases member_def Let_def)

lemma updateNavbar_js_eq: "updateNavbar_js s = Returns (updateNavbar s)"
  by (simp add: updateNavbar_js_def updateNavbar_def getElement_cases member_def)

lemma initContactForm_js_eq: "initContactForm_js s = Returns (initContactForm s)"
  by (simp add: initContactForm_js_def initContactForm_def getElement_cases member_def)

lemma registerHandlers_eq:
  "registerHandlers s =
     consoleLog LogInitialized ((updateNavbar (revealOnScroll (bindHandlers s)))\<lparr>isInitialized := True\<rparr>)"
  by (simp add: registerHandlers_def bindHandlers_def Let_def)

lemma setupSequence_eq:
  "setupSequence s =
     Returns (registerHandlers (initCardEffects (initContactForm (initSmoothScrolling
       (initTypingAnimation (state_of (initAOS (createParticles
          (state_of (initPerformanceMonitoring s))))))))))"
  by (simp add: setupSequence_def initPerformanceMonitoring_returns initAOS_returns
      createParticles_js_eq initContactForm_js_eq updateNavbar_js_eq registerHandlers_eq)

lemma init_eq:
  "init s =
     Returns (if isInitialized s then consoleLog WarnAlreadyInitialized s
              else registerHandlers (initCardEffects (initContactForm (initSmoothScrolling
                     (initTypingAnimation (state_of (initAOS (createParticles
                        (state_of (initPerformanceMonitoring (consoleLog LogInitializing s)))))))))))"
  by (simp add: init_def initWith_def setupSequence_eq)

lemma init_keeps [simp]:
  "isDestroyed (state_of (init s)) = isDestroyed s"
  "typingController (state_of (init s)) = typingController s"
  "scrollTicking (state_of (init s)) = scrollTicking s"
  "resizeTicking (state_of (init s)) = resizeTicking s"
  "frames (state_of (init s)) = frames s"
  "clock (state_of (init s)) = clock s"
  "aborted (state_of (init s)) = aborted s"
  "abortListeners (state_of (init s)) = abortListeners s"
  "typingHTML (state_of (init s)) = typingHTML s"
  "scrollPasses (state_of (init s)) = scrollPasses s"
  "config (state_of (init s)) = config s"
  "tornDown (state_of (init s)) = tornDown s"
  by (simp_all add: init_eq)


subsection \<open>Window listeners\<close>

lemma listenersOK_eqI:
  "listenersOK s \<Longrightarrow> isInitialized t = isInitialized s \<Longrightarrow>
   handlers_scroll t = handlers_scroll s \<Longrightarrow> handlers_resize t = handlers_resize s \<Longrightarrow>
   windowListeners t = windowListeners s \<Longrightarrow> listenersOK t"
  by (auto simp: listenersOK_def)

lemma registerHandlers_listeners:
  "windowListeners s = [] \<Longrightarrow> listenersOK (registerHandlers s)"
  by (simp add: listenersOK_def registerHandlers_def Let_def addEventListener_def consoleLog_def)

lemma isInitialized_registerHandlers [simp]: "isInitialized (registerHandlers s)"
  by (simp add: registerHandlers_def Let_def)

lemma isInitialized_init [simp]: "isInitialized (state_of (init s))"
  by (simp add: init_eq)

lemma init_listenersOK: "listenersOK s \<Longrightarrow> listenersOK (state_of (init s))"
proof (cases "isInitialized s")
  case True
  assume "listenersOK s"
  then show ?thesis
    by (rule listenersOK_eqI) (simp_all add: init_eq True)
next
  case False
  assume "listenersOK s"
  with False have "windowListeners s = []" by (simp add: listenersOK_def)
  with False show ?thesis
    by (simp add: init_eq registerHandlers_listeners)
qed

lemma isInitialized_destroy [simp]: "\<not> isInitialized (destroy s)"
  by (simp add: destroy_def Let_def)

lemma windowListeners_destroy:
  "windowListeners (destroy s) =
     filter (\<lambda>l. (\<forall>h. handlers_scroll s = Some h \<longrightarrow> l \<noteq> (ScrollEvent, h))
                \<and> (\<forall>h. handlers_resize s = Some h \<longrightarrow> l \<noteq> (ResizeEvent, h)))
       (windowListeners s)"
  by (auto simp: destroy_def Let_def removeHandlers_def removeEventListener_def
      split: option.splits intro: filter_cong)

lemma destroy_listenersOK: "listenersOK s \<Longrightarrow> listenersOK (destroy s)"
  by (auto simp: listenersOK_def windowListeners_destroy split: if_splits)

lemma step_listenersOK: "listenersOK s \<Longrightarrow> listenersOK (step e s)"
proof (cases e)
  case Init
  assume "listenersOK s" with Init show ?thesis by (simp add: init_listenersOK)
next
  case Destroy
  assume "listenersOK s" with Destroy show ?thesis by (simp add: destroy_listenersOK)
next
  case Submit
  assume "listenersOK s"
  then have "listenersOK (((\<lambda>s1. state_of (submitHandler s1)) ^^ n) s)" for n
    by (rule listenersOK_eqI) (simp_all add: funpow_keeps)
  then show ?thesis using Submit by simp
qed (erule listenersOK_eqI; simp)+


subsection \<open>Frame callbacks\<close>

lemma framesOK_eqI:
  "framesOK s \<Longrightarrow> frames t = frames s \<Longrightarrow> scrollTicking t = scrollTicking s \<Longrightarrow>
   resizeTicking t = resizeTicking s \<Longrightarrow> framesOK t"
  by (simp add: framesOK_def)

lemma handleScroll_framesOK: "framesOK s \<Longrightarrow> framesOK (handleScroll s)"
  by (simp add: framesOK_def handleScroll_def)

lemma handleResize_framesOK: "framesOK s \<Longrightarrow> framesOK (handleResize s)"
  by (simp add: framesOK_def handleResize_def)

lemma scrollTicking_scrollFrame [simp]: "\<not> scrollTicking (scrollFrame s)"
  by (simp add: scrollFrame_def Let_def)

lemma resizeTicking_resizeFrame [simp]: "\<not> resizeTicking (resizeFrame s)"
  by (simp add: resizeFrame_def Let_def)

lemma scrollTicking_fold:
  "scrollTicking (fold runFrameCallback fs s) = (scrollTicking s \<and> ScrollFrame \<notin> set fs)"
proof (induction fs arbitrary: s)
  case Nil
  show ?case by simp
next
  case (Cons f fs)
  show ?case by (cases f) (simp_all add: Cons.IH)
qed

lemma resizeTicking_fold:
  "resizeTicking (fold runFrameCallback fs s) = (resizeTicking s \<and> ResizeFrame \<notin> set fs)"
proof (induction fs arbitrary: s)
  case Nil
  show ?case by simp
next
  case (Cons f fs)
  show ?case by (cases f) (simp_all add: Cons.IH)
qed

lemma frames_frame [simp]: "frames (frame s) = []"
  by (simp add: frame_def fold_keeps)

lemma frame_framesOK: "framesOK s \<Longrightarrow> framesOK (frame s)"
proof -
  assume ok: "framesOK s"
  have sc: "ScrollFrame \<in> set (frames s)" if "scrollTicking s"
  proof (rule ccontr)
    assume "ScrollFrame \<notin> set (frames s)"
    then have "count_list (frames s) ScrollFrame = 0" by simp
    with ok that show False by (simp add: framesOK_def)
  qed
  have rs: "ResizeFrame \<in> set (frames s)" if "resizeTicking s"
  proof (rule ccontr)
    assume "ResizeFrame \<notin> set (frames s)"
    then have "count_list (frames s) ResizeFrame = 0" by simp
    with ok that show False by (simp add: framesOK_def)
  qed
  have "\<not> scrollTicking (frame s)" "\<not> resizeTicking (frame s)"
    using sc rs by (auto simp: frame_def scrollTicking_fold resizeTicking_fold)
  then show ?thesis
    by (simp add: framesOK_def)
qed

lemma callListener_framesOK: "framesOK s \<Longrightarrow> framesOK (callListener ev l s)"
  by (cases l; rename_tac a b; case_tac a; simp add: handleScroll_framesOK handleResize_framesOK)

lemma dispatch_framesOK: "framesOK s \<Longrightarrow> framesOK (dispatch ev s)"
  unfolding dispatch_def by (rule fold_preserves) (rule callListener_framesOK)

lemma scrollTicking_keeps [simp]:
  "scrollTicking (snd (revealLoop r s)) = scrollTicking s"
  "scrollTicking (runCycle c s) = scrollTicking s"
  "scrollTicking (snd (typeWriter c t ms s)) = scrollTicking s"
  "scrollTicking (formSent ot s) = scrollTicking s"
  by simp_all

lemma runTask_framesOK: "framesOK s \<Longrightarrow> framesOK (runTask cb s)"
proof (cases cb)
  case ResizeLater
  assume "framesOK s"
  with ResizeLater show ?thesis by (simp add: handleResize_framesOK)
qed (erule framesOK_eqI; simp)+

lemma fire_framesOK: "framesOK s \<Longrightarrow> framesOK (fire tid s)"
proof -
  assume ok: "framesOK s"
  have "framesOK (s\<lparr>timers := ts\<rparr>)" for ts
    using ok by (simp add: framesOK_def)
  then show ?thesis
    using ok by (simp add: fire_def runTask_framesOK split: option.splits)
qed

lemma step_framesOK: "framesOK s \<Longrightarrow> framesOK (step e s)"
proof (cases e)
  case Frame
  assume "framesOK s" with Frame show ?thesis by (simp add: frame_framesOK)
next
  case HandleScroll
  assume "framesOK s" with HandleScroll show ?thesis by (simp add: handleScroll_framesOK)
next
  case HandleResize
  assume "framesOK s" with HandleResize show ?thesis by (simp add: handleResize_framesOK)
next
  case (Timeout tid)
  assume "framesOK s" with Timeout show ?thesis by (simp add: fire_framesOK)
next
  case (Scroll y)
  assume "framesOK s"
  then have "framesOK (s\<lparr>scrollY := y\<rparr>)" by (simp add: framesOK_def)
  with Scroll show ?thesis by (simp add: dispatch_framesOK)
next
  case (Resize w h r)
  assume "framesOK s"
  then have "framesOK (s\<lparr>innerWidth := w, innerHeight := h, devicePixelRatio := r\<rparr>)"
    by (simp add: framesOK_def)
  with Resize show ?thesis by (simp add: dispatch_framesOK)
next
  case Submit
  assume "framesOK s"
  then have "framesOK (((\<lambda>s1. state_of (submitHandler s1)) ^^ n) s)" for n
    by (rule framesOK_eqI) (simp_all add: funpow_keeps)
  then show ?thesis using Submit by simp
qed (erule framesOK_eqI; simp)+

subsection \<open>Active animations\<close>

lemma animationsOK_eqI:
  "animationsOK s \<Longrightarrow> isInitialized t = isInitialized s \<Longrightarrow>
   activeAnimations t = activeAnimations s \<Longrightarrow> animationsOK t"
  by (simp add: animationsOK_def)

lemma activeAnimations_initTypingAnimation:
  "activeAnimations (initTypingAnimation s) =
     (if ''typingText'' \<in> elements s \<union> domIds s then insert (clock s) (activeAnimations s)
      else activeAnimations s)"
  by (simp add: initTypingAnimation_def getElement_cases consoleLog_def Let_def)

lemma activeAnimations_registerHandlers [simp]:
  "activeAnimations (registerHandlers s) = activeAnimations s"
  by (simp add: registerHandlers_def Let_def)

lemma activeAnimations_destroy [simp]: "activeAnimations (destroy s) = {}"
  by (simp add: destroy_def Let_def)

lemma init_animationsOK: "animationsOK s \<Longrightarrow> animationsOK (state_of (init s))"
proof (cases "isInitialized s")
  case True
  assume "animationsOK s"
  then show ?thesis
    by (rule animationsOK_eqI) (simp_all add: init_eq True)
next
  case False
  assume "animationsOK s"
  with False have "activeAnimations s = {}" by (simp add: animationsOK_def)
  with False show ?thesis
    by (simp add: animationsOK_def init_eq activeAnimations_initTypingAnimation)
qed

lemma step_animationsOK: "animationsOK s \<Longrightarrow> animationsOK (step e s)"
proof (cases e)
  case Init
  assume "animationsOK s" with Init show ?thesis by (simp add: init_animationsOK)
next
  case Destroy
  show ?thesis using Destroy by (simp add: animationsOK_def)
next
  case Submit
  assume "animationsOK s"
  then have "animationsOK (((\<lambda>s1. state_of (submitHandler s1)) ^^ n) s)" for n
    by (rule animationsOK_eqI) (simp_all add: funpow_keeps)
  then show ?thesis using Submit by simp
qed (erule animationsOK_eqI; simp)+


subsection \<open>The typing cycle\<close>

lemma ResolveChar_typingTimers:
  "(tid, due, ResolveChar r) \<in> set (timers s) \<longleftrightarrow> (tid, due, ResolveChar r) \<in> set (typingTimers s)"
  by (simp add: typingTimers_def)

lemma typingOK_eqI:
  assumes "typingOK s"
    and "isDestroyed t = isDestroyed s" "isInitialized t = isInitialized s"
    and "tornDown t = tornDown s"
    and "typingController t = typingController s" "abortListeners t = abortListeners s"
    and "aborted t = aborted s" "nextId s \<le> nextId t" "typingTimers t = typingTimers s"
  shows "typingOK t"
  using assms unfolding typingOK_def ResolveChar_typingTimers
  by (auto simp: less_le_trans)

lemma typingOK_sameI:
  assumes "typingOK s"
    and "isDestroyed t = isDestroyed s" "isInitialized t = isInitialized s"
    and "tornDown t = tornDown s"
    and "typingController t = typingController s" "abortListeners t = abortListeners s"
    and "aborted t = aborted s" "nextId t = nextId s" "timers t = timers s"
  shows "typingOK t"
  using assms(1) by (rule typingOK_eqI) (simp_all add: assms typingTimers_def)

lemma typingTimers_setTimeout:
  "typingTimers (setTimeout cb d s) =
     typingTimers s @ (if typingTask cb then [(nextId s, clock s + d, cb)] else [])"
  by (simp add: typingTimers_def setTimeout_def)

lemma quiet_typingOK:
  assumes "typingTimers s = []" "tornDown s \<longrightarrow> isDestroyed s"
    and "\<forall>ctl. typingController s = Some ctl \<longrightarrow> ctl \<notin> aborted s \<and> ctl < nextId s"
    and "\<forall>ctl \<in> aborted s. ctl < nextId s"
  shows "typingOK s"
  using assms unfolding typingOK_def ResolveChar_typingTimers by simp

text \<open>
  A state in which no continuation of a typing cycle is pending and \<open>destroy\<close> has not
  run: a reveal loop that goes on from there leaves at most its own timeout behind.
\<close>

lemma resume_typingOK:
  assumes "typingTimers s = []" "\<not> tornDown s" "isInitialized s"
    and "typingController s = Some (controller r)"
    and "controller r \<notin> aborted s" "controller r < nextId s"
    and "\<forall>ctl \<in> aborted s. ctl < nextId s"
  shows "typingOK (afterTypeWriter c (revealLoop r s))"
proof -
  have quiet: "typingOK s"
    using assms by (intro quiet_typingOK) simp_all
  have none: "(tid, due, ResolveChar r') \<notin> set (timers s)" for tid due r'
    using assms(1) by (simp add: ResolveChar_typingTimers)
  show ?thesis
  proof (cases "revealText r")
    case None
    have "typingOK (consoleLog (ErrorTypeWriter TypeError) s)"
      using quiet by (rule typingOK_sameI) simp_all
    with None show ?thesis
      by (simp add: revealLoop_def afterTypeWriter_def)
  next
    case (Some t)
    show ?thesis
    proof (cases "pos r < length t")
      case True
      with Some assms none show ?thesis
        by (auto simp: revealLoop_def afterTypeWriter_def typingOK_def typingTimers_def
            setTimeout_def Let_def less_Suc_eq)
    next
      case False
      with Some assms none show ?thesis
        by (auto simp: revealLoop_def afterTypeWriter_def typingOK_def typingTimers_def
            setTimeout_def Let_def less_Suc_eq)
    qed
  qed
qed

lemma runCycle_typingOK:
  assumes "typingTimers s = []" "\<not> tornDown s" "isInitialized s"
    and "\<forall>ctl. typingController s = Some ctl \<longrightarrow> ctl \<notin> aborted s \<and> ctl < nextId s"
    and "\<forall>ctl \<in> aborted s. ctl < nextId s"
  shows "typingOK (runCycle c s)"
proof (cases "isDestroyed s \<or> animationId c \<notin> activeAnimations s")
  case True
  with assms show ?thesis
    by (simp add: runCycle_def quiet_typingOK)
next
  case False
  let ?s2 = "s\<lparr>typingHTML := [], typingController := Some (nextId s), nextId := Suc (nextId s)\<rparr>"
  let ?r = "\<lparr>owner = c, controller = nextId s, revealText = textAt (currentIndex c),
      interval = speed (typing (config s)), pos = 0\<rparr>"
  have fresh: "nextId s \<notin> aborted s"
    using assms(5) by auto
  have "typingOK (afterTypeWriter c (revealLoop ?r ?s2))"
    using assms fresh by (intro resume_typingOK) (auto simp: typingTimers_def less_Suc_eq)
  with False show ?thesis
    by (simp add: runCycle_def typeWriter_def Let_def)
qed

lemma find_SomeD: "find P xs = Some x \<Longrightarrow> x \<in> set xs \<and> P x"
  by (induction xs) (auto split: if_splits)

lemma typingTimers_remove1:
  "typingTimers (s\<lparr>timers := remove1 x (timers s)\<rparr>) = remove1 x (typingTimers s)"
  by (simp add: typingTimers_def filter_remove1)

lemma only_typingTimer:
  assumes "length (typingTimers s) \<le> 1" "x \<in> set (timers s)" "typingTask (snd (snd x))"
  shows "typingTimers s = [x]"
proof -
  from assms(2,3) have "x \<in> set (typingTimers s)" by (simp add: typingTimers_def)
  with assms(1) show ?thesis
    by (cases "typingTimers s") auto
qed

lemma runTask_other_typingOK:
  assumes "typingOK s" "\<not> typingTask cb"
  shows "typingOK (runTask cb s)"
proof (cases cb)
  case (FormSent ot)
  from assms(1) show ?thesis unfolding FormSent
    by (rule typingOK_eqI) (simp_all add: formSent_def typingTimers_def setTimeout_def)
next
  case (FormReset ot)
  from assms(1) show ?thesis unfolding FormReset
    by (rule typingOK_sameI) simp_all
next
  case (FormErrorReset ot)
  from assms(1) show ?thesis unfolding FormErrorReset
    by (rule typingOK_sameI) simp_all
next
  case ResizeLater
  from assms(1) show ?thesis unfolding ResizeLater
    by (rule typingOK_sameI) simp_all
qed (use assms(2) in simp_all)

lemma fire_typingOK:
  assumes ok: "typingOK s"
  shows "typingOK (fire tid s)"
proof (cases "find (\<lambda>t. fst t = tid) (timers s)")
  case None
  with ok show ?thesis by (simp add: fire_def)
next
  case (Some x)
  obtain tid' due cb where x: "x = (tid', due, cb)" by (cases x)
  from Some have mem: "x \<in> set (timers s)" and "fst x = tid" by (auto dest: find_SomeD)
  with x have tid': "tid' = tid" by simp
  let ?s' = "s\<lparr>timers := remove1 x (timers s)\<rparr>"
  have tt: "typingTimers ?s' = remove1 x (typingTimers s)"
    by (rule typingTimers_remove1)
  show ?thesis
  proof (cases "clock s < due")
    case True
    with Some x ok show ?thesis by (simp add: fire_def)
  next
    case due: False
    have fire: "fire tid s = runTask cb ?s'"
      using Some x due tid' by (simp add: fire_def)
    show ?thesis
    proof (cases "typingTask cb")
      case False
      then have "x \<notin> set (typingTimers s)" by (simp add: typingTimers_def x)
      then have "typingTimers ?s' = typingTimers s" by (simp add: tt remove1_idem)
      with ok have "typingOK ?s'" by (rule_tac typingOK_eqI) simp_all
      then show ?thesis unfolding fire using False by (rule runTask_other_typingOK)
    next
      case typing: True
      have sub: "set (typingTimers ?s') \<subseteq> set (typingTimers s)"
        unfolding tt by (rule set_remove1_subset)
      show ?thesis
      proof (cases "tornDown s")
        case True
        with ok have destroyed: "isDestroyed s" by (simp add: typingOK_def)
        have "\<not> revealTask cb"
        proof
          assume "revealTask cb"
          then obtain r where "cb = ResolveChar r" by (cases cb) simp_all
          with mem x ok True show False by (auto simp: typingOK_def)
        qed
        with typing destroyed have "runTask cb ?s' = ?s'" by (cases cb) simp_all
        moreover have "typingOK ?s'"
          using ok sub True unfolding typingOK_def ResolveChar_typingTimers by auto
        ultimately show ?thesis unfolding fire by simp
      next
        case False
        with ok have "length (typingTimers s) \<le> 1" by (simp add: typingOK_def)
        with mem typing have only: "typingTimers s = [x]" by (intro only_typingTimer) (simp_all add: x)
        then have quiet: "typingTimers ?s' = []" by (simp add: tt)
        from ok False only have initd: "isInitialized s" by (auto simp: typingOK_def)
        have ctl: "\<forall>ctl. typingController ?s' = Some ctl \<longrightarrow> ctl \<notin> aborted ?s' \<and> ctl < nextId ?s'"
          and ab: "\<forall>ctl \<in> aborted ?s'. ctl < nextId ?s'"
          using ok by (simp_all add: typingOK_def)
        have rest: "typingOK ?s'"
          using quiet _ ctl ab by (rule quiet_typingOK) (simp add: False)
        show ?thesis
        proof (cases cb)
          case (StartCycle c)
          have "typingOK (runCycle c ?s')"
            using quiet False initd ctl ab by (intro runCycle_typingOK) simp_all
          with rest show ?thesis unfolding fire StartCycle by simp
        next
          case (NextText c)
          have "typingOK (runCycle c ?s')"
            using quiet False initd ctl ab by (intro runCycle_typingOK) simp_all
          with rest show ?thesis unfolding fire NextText by simp
        next
          case (ResolveChar r)
          with mem x ok have c: "typingController s = Some (controller r)"
            by (auto simp: typingOK_def)
          with ok have "controller r \<notin> aborted s" "controller r < nextId s"
            by (auto simp: typingOK_def)
          then have "typingOK (afterTypeWriter (owner r) (revealLoop (r\<lparr>pos := Suc (pos r)\<rparr>) ?s'))"
            using quiet False initd c ab by (intro resume_typingOK) simp_all
          then show ?thesis unfolding fire ResolveChar by simp
        qed (use typing in simp_all)
      qed
    qed
  qed
qed

lemma destroy_fields:
  "isDestroyed (destroy s)"
  "tornDown (destroy s)"
  "typingController (destroy s) = None"
  "elements (destroy s) = {}"
  "aborted (destroy s) = (case typingController s of None \<Rightarrow> aborted s | Some ctl \<Rightarrow> insert ctl (aborted s))"
  "timers (destroy s) =
     (case typingController s of
        None \<Rightarrow> timers s
      | Some ctl \<Rightarrow>
          if ctl \<in> aborted s then timers s
          else filter (\<lambda>t. (ctl, fst t) \<notin> set (abortListeners s)) (timers s))"
  by (auto simp: destroy_def Let_def stopTyping_def abort_eq consoleLog_def split: option.splits)

lemma destroy_typingOK:
  assumes ok: "typingOK s"
  shows "typingOK (destroy s)"
proof -
  have none: "(tid, due, ResolveChar r) \<notin> set (timers (destroy s))" for tid due r
  proof
    assume in_d: "(tid, due, ResolveChar r) \<in> set (timers (destroy s))"
    then have "(tid, due, ResolveChar r) \<in> set (timers s)"
      by (auto simp: destroy_fields split: option.splits if_splits)
    with ok have c: "typingController s = Some (controller r)"
      and l: "(controller r, tid) \<in> set (abortListeners s)"
      by (auto simp: typingOK_def)
    from c ok have "controller r \<notin> aborted s" by (auto simp: typingOK_def)
    with c l in_d show False by (simp add: destroy_fields)
  qed
  have "\<forall>ctl \<in> aborted (destroy s). ctl < nextId (destroy s)"
    using ok by (auto simp: destroy_fields typingOK_def split: option.splits)
  with none show ?thesis
    by (simp add: typingOK_def destroy_fields)
qed

lemma initTypingAnimation_timers:
  "timers (initTypingAnimation s) =
     (if ''typingText'' \<in> elements s \<union> domIds s
      then timers s @ [(nextId s, clock s + initialDelay (typing (config s)),
                        StartCycle \<lparr>animationId = clock s, currentIndex = 0\<rparr>)]
      else timers s)"
  "nextId (initTypingAnimation s) =
     (if ''typingText'' \<in> elements s \<union> domIds s then Suc (nextId s) else nextId s)"
  by (simp_all add: initTypingAnimation_def getElement_cases consoleLog_def Let_def setTimeout_def)

lemma nextId_registerHandlers [simp]: "nextId (registerHandlers s) = Suc (Suc (nextId s))"
  by (simp add: registerHandlers_def Let_def)

lemma init_typingOK:
  assumes ok: "typingOK s"
  shows "typingOK (state_of (init s))"
proof (cases "isInitialized s")
  case True
  from ok show ?thesis
    by (rule typingOK_sameI) (simp_all add: init_eq True)
next
  case False
  have quiet: "typingTimers s = []" if "\<not> tornDown s"
    using ok False that by (simp add: typingOK_def)
  have len: "length (typingTimers (state_of (init s))) \<le> 1" if "\<not> tornDown s"
    using quiet [OF that] False
    by (simp add: init_eq typingTimers_def initTypingAnimation_timers)
  have res: "(tid, due, ResolveChar r) \<in> set (timers (state_of (init s))) \<Longrightarrow>
      (tid, due, ResolveChar r) \<in> set (timers s)" for tid due r
    using False by (auto simp: init_eq initTypingAnimation_timers split: if_splits)
  have grow: "nextId s \<le> nextId (state_of (init s))"
    using False by (simp add: init_eq initTypingAnimation_timers)
  have G: "tornDown s \<longrightarrow> isDestroyed s"
    using ok by (simp add: typingOK_def)
  have C: "\<not> tornDown s \<and> typingController s = Some (controller r)
      \<and> (controller r, tid) \<in> set (abortListeners s)"
    if "(tid, due, ResolveChar r) \<in> set (timers (state_of (init s)))" for tid due r
    using ok res [OF that] by (auto simp: typingOK_def)
  have D: "ctl \<notin> aborted s \<and> ctl < nextId (state_of (init s))"
    if "typingController s = Some ctl" for ctl
    using ok that grow by (auto simp: typingOK_def)
  have E: "ctl < nextId (state_of (init s))" if "ctl \<in> aborted s" for ctl
    using ok that grow by (auto simp: typingOK_def)
  show ?thesis
    unfolding typingOK_def using len G C D E by simp
qed

lemma submitHandler_typingOK:
  assumes "typingOK s"
  shows "typingOK (state_of (submitHandler s))"
  using assms
  by (rule typingOK_eqI)
     (auto simp: submitHandler_def Let_def typingTimers_def setTimeout_def
       split: sum.splits prod.splits)

lemma visibility_typingOK:
  assumes "typingOK s" "\<not> tornDown s"
  shows "typingOK (s\<lparr>isDestroyed := hidden\<rparr>)"
  using assms unfolding typingOK_def typingTimers_def by simp

lemma step_typingOK:
  assumes "typingOK s" "controllerEvent e"
  shows "typingOK (step e s)"
proof (cases e)
  case Init
  with assms show ?thesis by (simp add: init_typingOK)
next
  case Destroy
  with assms show ?thesis by (simp add: destroy_typingOK)
next
  case (Timeout tid)
  with assms show ?thesis by (simp add: fire_typingOK)
next
  case Submit
  have "typingOK (((\<lambda>s1. state_of (submitHandler s1)) ^^ n) s)" for n
    using assms(1) by (rule funpow_preserves [rotated]) (rule submitHandler_typingOK)
  with Submit show ?thesis by simp
next
  case OrientationChange
  from assms(1) show ?thesis unfolding OrientationChange
    by (rule typingOK_eqI) (simp_all add: typingTimers_def setTimeout_def)
next
  case (Visibility hidden)
  with assms(2) show ?thesis by simp
qed (rule typingOK_sameI [OF assms(1)]; simp)+

subsection \<open>Reachable states\<close>

lemma constructor_invariant: "pageLoaded s \<Longrightarrow> invariant (constructor s)"
  by (simp add: invariant_def pageLoaded_def constructor_def listenersOK_def framesOK_def
      typingOK_def typingTimers_def animationsOK_def)

lemma step_invariant: "invariant s \<Longrightarrow> controllerEvent e \<Longrightarrow> invariant (step e s)"
  unfolding invariant_def
  by (intro conjI step_listenersOK step_framesOK step_typingOK step_animationsOK) simp_all

lemma visibility_invariant:
  "invariant s \<Longrightarrow> \<not> tornDown s \<Longrightarrow> invariant (step (Visibility hidden) s)"
  unfolding invariant_def
  using step_listenersOK [of s "Visibility hidden"] step_framesOK [of s "Visibility hidden"]
    step_animationsOK [of s "Visibility hidden"] visibility_typingOK [of s hidden]
  by simp

lemma reachable_invariant: "reachable s \<Longrightarrow> invariant s"
  by (induction rule: reachable.induct)
     (simp_all add: constructor_invariant step_invariant visibility_invariant del: step.simps)

section \<open>Sample runs\<close>

lemmas sample_defs = constructor_def samplePage_def emptyPage_def init_eq
  initPerformanceMonitoring_returns initAOS_returns consoleLog_def createParticles_def getElement_cases
  initTypingAnimation_def setTimeout_def initSmoothScrolling_def initContactForm_def
  initCardEffects_def registerHandlers_def addEventListener_def revealOnScroll_def revealElement_def
  updateNavbar_def Let_def default_config_def particleCount_def loopIterations_def
  fire_def runCycle_def typeWriter_def revealLoop_def afterTypeWriter_def textAt_def texts_def
  form_def js_simps

lemma reachable_run:
  "reachable s \<Longrightarrow> list_all controllerEvent es \<Longrightarrow> reachable (run es s)"
  unfolding run_def
  by (induction es arbitrary: s) (simp_all add: reachable.event)

lemma reachable_sample: "reachable (constructor samplePage)"
  by (rule reachable.created) (simp add: pageLoaded_def samplePage_def emptyPage_def)

lemma reachable_startedPage: "reachable startedPage"
  unfolding startedPage_def by (rule reachable.event [OF reachable_sample]) simp

lemma reachable_typingPage: "reachable typingPage"
  unfolding typingPage_def by (rule reachable_run [OF reachable_sample]) simp

lemma typingPage_timers:
  "timers typingPage =
     [(4, 2150, ResolveChar \<lparr>owner = \<lparr>animationId = 0, currentIndex = 0\<rparr>, controller = 3,
         revealText = Some ''Junior Front-end Developer'', interval = 150, pos = 0\<rparr>)]"
  "typingController typingPage = Some 3"
  "typingHTML typingPage = ''J''"
  "abortListeners typingPage = [(3, 4)]"
  "aborted typingPage = {}"
  by (simp_all add: typingPage_def run_def sample_defs)

lemma reachable_typingOK: "reachable s \<Longrightarrow> typingOK s"
  using reachable_invariant by (simp add: invariant_def)




section \<open>Cancelling the reveal loop\<close>

lemma stopTyping_eq:
  "stopTyping s =
     s\<lparr>typingController := None,
       aborted := (case typingController s of None \<Rightarrow> aborted s | Some ctl \<Rightarrow> insert ctl (aborted s)),
       timers := (case typingController s of
                    None \<Rightarrow> timers s
                  | Some ctl \<Rightarrow>
                      if ctl \<in> aborted s then timers s
                      else filter (\<lambda>t. (ctl, fst t) \<notin> set (abortListeners s)) (timers s))\<rparr>"
proof (cases "typingController s")
  case None
  then have "s\<lparr>typingController := None\<rparr> = s" by (cases s) simp
  with None show ?thesis by (simp add: stopTyping_def)
next
  case (Some ctl)
  then show ?thesis by (simp add: stopTyping_def abort_eq insert_absorb)
qed

lemma typingTimers_submitHandler:
  "typingTimers (state_of (submitHandler s)) = typingTimers s"
  by (auto simp: submitHandler_def Let_def typingTimers_def setTimeout_def
      split: sum.splits prod.splits)

lemma typingTimers_same: "timers t = timers s \<Longrightarrow> typingTimers t = typingTimers s"
  by (simp add: typingTimers_def)

lemma typingTimers_destroy_quiet: "typingTimers s = [] \<Longrightarrow> typingTimers (destroy s) = []"
  by (auto simp: typingTimers_def destroy_fields filter_empty_conv split: option.splits)

lemma typingTimers_stopTyping_quiet: "typingTimers s = [] \<Longrightarrow> typingTimers (stopTyping s) = []"
  by (auto simp: typingTimers_def stopTyping_eq filter_empty_conv split: option.splits)

lemma fire_quiet:
  assumes "typingTimers s = []"
  shows "typingTimers (fire tid s) = [] \<and> typingHTML (fire tid s) = typingHTML s"
proof (cases "find (\<lambda>t. fst t = tid) (timers s)")
  case None
  with assms show ?thesis by (simp add: fire_def)
next
  case (Some x)
  obtain tid' due cb where x: "x = (tid', due, cb)" by (cases x)
  from Some have mem: "x \<in> set (timers s)" by (auto dest: find_SomeD)
  with assms have nt: "\<not> typingTask cb"
    by (auto simp: typingTimers_def filter_empty_conv x)
  let ?s' = "s\<lparr>timers := remove1 (tid, due, cb) (timers s)\<rparr>"
  have q: "typingTimers ?s' = []"
    using assms by (simp add: typingTimers_remove1)
  have "typingTimers (runTask cb ?s') = [] \<and> typingHTML (runTask cb ?s') = typingHTML s"
  proof (cases cb)
    case (FormSent ot)
    with q show ?thesis by (simp add: formSent_def typingTimers_def setTimeout_def)
  next
    case (FormReset ot)
    with q show ?thesis by (simp add: typingTimers_def)
  next
    case (FormErrorReset ot)
    with q show ?thesis by (simp add: typingTimers_def)
  next
    case ResizeLater
    with q show ?thesis by (simp add: typingTimers_def)
  qed (use nt in simp_all)
  with Some x assms show ?thesis by (simp add: fire_def)
qed

lemma step_quiet:
  assumes "typingTimers s = []" "e \<noteq> Init"
  shows "typingTimers (step e s) = [] \<and> typingHTML (step e s) = typingHTML s"
proof (cases e)
  case Init
  with assms(2) show ?thesis by simp
next
  case Destroy
  with assms(1) show ?thesis by (simp add: typingTimers_destroy_quiet)
next
  case (Timeout tid)
  with assms(1) show ?thesis by (simp add: fire_quiet)
next
  case OrientationChange
  with assms(1) show ?thesis by (simp add: typingTimers_def setTimeout_def)
next
  case Submit
  have "typingTimers (((\<lambda>s1. state_of (submitHandler s1)) ^^ n) s) = typingTimers s" for n
    by (rule funpow_keeps) (rule typingTimers_submitHandler)
  with Submit assms(1) show ?thesis by (simp add: funpow_keeps)
qed (use assms(1) in \<open>simp_all add: typingTimers_def\<close>)

lemma run_quiet:
  "typingTimers s = [] \<Longrightarrow> Init \<notin> set es \<Longrightarrow>
   typingTimers (run es s) = [] \<and> typingHTML (run es s) = typingHTML s"
  unfolding run_def
proof (induction es arbitrary: s)
  case Nil
  then show ?case by simp
next
  case (Cons e es)
  from Cons.prems have "typingTimers (step e s) = [] \<and> typingHTML (step e s) = typingHTML s"
    by (intro step_quiet) auto
  with Cons.IH [of "step e s"] Cons.prems show ?case by simp
qed

lemma reveal_is_only_typingTimer:
  assumes "reachable s" "(tid, due, ResolveChar r) \<in> set (timers s)"
  shows "typingTimers s = [(tid, due, ResolveChar r)]"
    and "typingController s = Some (controller r)"
    and "(controller r, tid) \<in> set (abortListeners s)"
    and "controller r \<notin> aborted s"
proof -
  from assms(1) have ok: "typingOK s" by (rule reachable_typingOK)
  with assms(2) show c: "typingController s = Some (controller r)"
    and "(controller r, tid) \<in> set (abortListeners s)"
    by (auto simp: typingOK_def)
  from ok c show "controller r \<notin> aborted s" by (auto simp: typingOK_def)
  from ok assms(2) have "\<not> tornDown s" by (auto simp: typingOK_def)
  with ok have "length (typingTimers s) \<le> 1" by (simp add: typingOK_def)
  then show "typingTimers s = [(tid, due, ResolveChar r)]"
    using assms(2) by (rule only_typingTimer) simp
qed


text \<open>
  Up to the first \<open>destroy\<close> (and through any calls of \<open>init\<close> and \<open>destroy\<close> as long
  as no tab switch follows a \<open>destroy\<close>) cancellation does stop the typing. In a
  reachable state, let a reveal loop be suspended on its per-character timeout. The
  controller's \<open>typingController\<close> is then the loop's own. Aborting it (lines 501 to 504
  of \<open>destroy\<close>), and likewise \<open>destroy\<close> itself, removes that timeout and leaves no
  continuation of a typing cycle pending; the text shown is the one shown before, and it
  stays so, with no typing continuation scheduled, after any sequence of later events
  that holds no call of \<open>init\<close>.
\<close>

lemma cancel_stops_typing:
  assumes "reachable s" "(tid, due, ResolveChar r) \<in> set (timers s)" "Init \<notin> set es"
  shows "typingController s = Some (controller r)
    \<and> (tid, due, ResolveChar r) \<notin> set (timers (stopTyping s))
    \<and> typingTimers (stopTyping s) = [] \<and> typingHTML (stopTyping s) = typingHTML s
    \<and> typingTimers (run es (stopTyping s)) = []
    \<and> typingHTML (run es (stopTyping s)) = typingHTML s
    \<and> (tid, due, ResolveChar r) \<notin> set (timers (destroy s))
    \<and> typingTimers (destroy s) = [] \<and> typingHTML (destroy s) = typingHTML s
    \<and> typingTimers (run es (destroy s)) = []
    \<and> typingHTML (run es (destroy s)) = typingHTML s"
proof -
  note one = reveal_is_only_typingTimer [OF assms(1,2)]
  have gone: "filter (\<lambda>t. (controller r, fst t) \<notin> set (abortListeners s)) (typingTimers s) = []"
    using one(1,3) by simp
  have stop: "typingTimers (stopTyping s) = []"
    using gone one(2,4) by (simp add: typingTimers_def stopTyping_eq conj_commute)
  have dest: "typingTimers (destroy s) = []"
    using gone one(2,4) by (simp add: typingTimers_def destroy_fields conj_commute)
  have "(tid, due, ResolveChar r) \<notin> set (timers (stopTyping s))"
    using stop unfolding ResolveChar_typingTimers by simp
  moreover have "(tid, due, ResolveChar r) \<notin> set (timers (destroy s))"
    using dest unfolding ResolveChar_typingTimers by simp
  moreover have "typingHTML (stopTyping s) = typingHTML s" by simp
  ultimately show ?thesis
    using one(2) stop dest run_quiet [OF stop assms(3)] run_quiet [OF dest assms(3)]
    by simp
qed

lemma cancel_stops_typing_example:
  "reachable typingPage
   \<and> (4, 2150, ResolveChar \<lparr>owner = \<lparr>animationId = 0, currentIndex = 0\<rparr>, controller = 3,
         revealText = Some ''Junior Front-end Developer'', interval = 150, pos = 0\<rparr>) \<in> set (timers typingPage)
   \<and> Init \<notin> set [Tick 150, Timeout 4, Visibility False, Tick 5000, Timeout 4, Frame]
   \<and> typingHTML typingPage = ''J''
   \<and> typingHTML (run [Tick 150, Timeout 4] typingPage) = ''Ju''
   \<and> timers (stopTyping typingPage) = []
   \<and> typingHTML (run [Tick 150, Timeout 4, Visibility False, Tick 5000, Timeout 4, Frame]
        (stopTyping typingPage)) = ''J''
   \<and> typingHTML (run [Tick 150, Timeout 4, Visibility False, Tick 5000, Timeout 4, Frame]
        (destroy typingPage)) = ''J''"
proof -
  have m: "(4, 2150, ResolveChar \<lparr>owner = \<lparr>animationId = 0, currentIndex = 0\<rparr>, controller = 3,
         revealText = Some ''Junior Front-end Developer'', interval = 150, pos = 0\<rparr>) \<in> set (timers typingPage)"
    by (simp add: typingPage_timers)
  have n: "Init \<notin> set [Tick 150, Timeout 4, Visibility False, Tick 5000, Timeout 4, Frame]"
    by simp
  have t: "timers (stopTyping typingPage) = []"
    by (simp add: stopTyping_eq typingPage_timers)
  have go: "typingHTML (run [Tick 150, Timeout 4] typingPage) = ''Ju''"
    by (simp add: typingPage_def run_def sample_defs)
  show ?thesis
    using cancel_stops_typing [OF reachable_typingPage m n] reachable_typingPage m t go
    by (simp add: typingPage_timers)
qed

lemma twoCycles_fields:
  "timers twoCycles =
     [(7, 2150, ResolveChar \<lparr>owner = \<lparr>animationId = 0, currentIndex = 0\<rparr>, controller = 6,
         revealText = Some ''Junior Front-end Developer'', interval = 150, pos = 0\<rparr>),
      (9, 2150, ResolveChar \<lparr>owner = \<lparr>animationId = 0, currentIndex = 0\<rparr>, controller = 8,
         revealText = Some ''Junior Front-end Developer'', interval = 150, pos = 0\<rparr>)]"
  "typingController twoCycles = Some 8"
  "abortListeners twoCycles = [(6, 7), (8, 9)]"
  "aborted twoCycles = {}"
  "activeAnimations twoCycles = {0}"
  "typingHTML twoCycles = ''J''"
  "\<not> isDestroyed twoCycles"
  "clock twoCycles = 2000"
  by (simp_all add: twoCycles_def run_def sample_defs destroy_def stopTyping_def
      removeHandlers_def removeEventListener_def)

text \<open>
  C1 fails on the code. In the run \<open>twoCycles\<close> two reveal loops are suspended on
  their timeouts (numbers 7 and 9) and \<open>typingController\<close> is the controller of the
  younger one. Aborting it (lines 501 to 504) clears timeout 9 only: timeout 7 stays
  scheduled, and when it fires the older loop goes on typing, from \<open>J\<close> to \<open>Ju\<close> and
  \<open>Jun\<close>. \<open>destroy\<close> leaves timeout 7 scheduled as well, and the older loop goes on
  as soon as the tab is visible again.
\<close>

theorem abort_misses_older_loop:
  "typingController twoCycles = Some 8
   \<and> length (revealsInFlight twoCycles) = 2
   \<and> typingHTML twoCycles = ''J''
   \<and> timers (stopTyping twoCycles) =
       [(7, 2150, ResolveChar \<lparr>owner = \<lparr>animationId = 0, currentIndex = 0\<rparr>, controller = 6,
           revealText = Some ''Junior Front-end Developer'', interval = 150, pos = 0\<rparr>)]
   \<and> typingHTML (run [Tick 150, Timeout 7] (stopTyping twoCycles)) = ''Ju''
   \<and> typingHTML (run [Tick 150, Timeout 7, Tick 150, Timeout 10] (stopTyping twoCycles)) = ''Jun''
   \<and> timers (destroy twoCycles) = timers (stopTyping twoCycles)
   \<and> typingHTML (run [Visibility False, Tick 150, Timeout 7] (destroy twoCycles)) = ''Ju''"
proof -
  have stop: "timers (stopTyping twoCycles) =
       [(7, 2150, ResolveChar \<lparr>owner = \<lparr>animationId = 0, currentIndex = 0\<rparr>, controller = 6,
           revealText = Some ''Junior Front-end Developer'', interval = 150, pos = 0\<rparr>)]"
    by (simp add: stopTyping_eq twoCycles_fields)
  have dest: "timers (destroy twoCycles) = timers (stopTyping twoCycles)"
    by (simp add: destroy_fields stopTyping_eq twoCycles_fields)
  have fields: "typingHTML (stopTyping twoCycles) = ''J''" "clock (stopTyping twoCycles) = 2000"
    "\<not> isDestroyed (stopTyping twoCycles)" "aborted (stopTyping twoCycles) = {8}"
    "nextId (stopTyping twoCycles) = nextId twoCycles"
    "config (stopTyping twoCycles) = config twoCycles"
    by (simp_all add: twoCycles_fields stopTyping_eq)
  have ju: "typingHTML (run [Tick 150, Timeout 7] (stopTyping twoCycles)) = ''Ju''"
    by (simp add: twoCycles_def run_def sample_defs destroy_def stopTyping_def abort_eq
        removeHandlers_def removeEventListener_def)
  have jun: "typingHTML (run [Tick 150, Timeout 7, Tick 150, Timeout 10] (stopTyping twoCycles)) = ''Jun''"
    by (simp add: twoCycles_def run_def sample_defs destroy_def stopTyping_def abort_eq
        removeHandlers_def removeEventListener_def)
  have again: "typingHTML (run [Visibility False, Tick 150, Timeout 7] (destroy twoCycles)) = ''Ju''"
    by (simp add: twoCycles_def run_def sample_defs destroy_def stopTyping_def abort_eq
        removeHandlers_def removeEventListener_def)
  show ?thesis
    using stop dest ju jun again by (simp add: twoCycles_fields revealsInFlight_def)
qed


section \<open>Listeners after \<open>destroy\<close> and \<open>init\<close>\<close>

lemma reachable_pairs:
  "reachable s \<Longrightarrow> reachable (((\<lambda>s1. state_of (init (destroy s1))) ^^ n) s)"
proof (induction n)
  case 0
  then show ?case by simp
next
  case (Suc n)
  from reachable.event [OF reachable.event [OF Suc.IH [OF Suc.prems], of Destroy], of Init]
  show ?case by simp
qed


text \<open>
  C2. From a reachable state (the new controller of a loaded page among them), after
  \<open>init\<close> and then any number \<open>n\<close> of pairs \<open>destroy\<close>, \<open>init\<close>, the window holds
  exactly one scroll listener and exactly one resize listener, the two handlers that the
  last \<open>init\<close> bound; a \<open>destroy\<close> then leaves none.
\<close>

theorem destroy_init_listeners:
  assumes "reachable s"
  shows "(let s' = ((\<lambda>s1. state_of (init (destroy s1))) ^^ n) (state_of (init s)) in
            length (filter (\<lambda>l. fst l = ScrollEvent) (windowListeners s')) = 1
          \<and> length (filter (\<lambda>l. fst l = ResizeEvent) (windowListeners s')) = 1
          \<and> windowListeners s' =
               [(ScrollEvent, the (handlers_scroll s')), (ResizeEvent, the (handlers_resize s'))]
          \<and> windowListeners (destroy s') = [])"
proof -
  let ?s' = "((\<lambda>s1. state_of (init (destroy s1))) ^^ n) (state_of (init s))"
  from assms have "reachable (state_of (init s))"
    using reachable.event [of s Init] by simp
  then have r: "reachable ?s'" by (rule reachable_pairs)
  then have ok: "listenersOK ?s'"
    using reachable_invariant by (simp add: invariant_def)
  have i: "isInitialized ?s'" by (cases n) simp_all
  from r have "reachable (destroy ?s')"
    using reachable.event [of ?s' Destroy] by simp
  then have "listenersOK (destroy ?s')"
    using reachable_invariant by (simp add: invariant_def)
  then have "windowListeners (destroy ?s') = []"
    by (simp add: listenersOK_def)
  with ok i show ?thesis
    by (auto simp: listenersOK_def Let_def)
qed

theorem destroy_init_listeners_witness:
  "reachable (constructor samplePage)
   \<and> length (filter (\<lambda>l. fst l = ScrollEvent)
        (windowListeners (((\<lambda>s1. state_of (init (destroy s1))) ^^ 2)
           (state_of (init (constructor samplePage)))))) = 1
   \<and> length (filter (\<lambda>l. fst l = ResizeEvent)
        (windowListeners (((\<lambda>s1. state_of (init (destroy s1))) ^^ 2)
           (state_of (init (constructor samplePage)))))) = 1"
  using destroy_init_listeners [OF reachable_sample, of 2] reachable_sample
  by (simp add: Let_def)


section \<open>Particle count\<close>

text \<open>
  C3. Under the configuration of the constructor, for every viewport width and pixel ratio
  the particle count of \<open>createParticles\<close> lies between \<open>minCount = 20\<close> and
  \<open>maxCount = 100\<close> and depends on these two inputs alone: the base count halved, not
  below \<open>minCount\<close>, when the ratio is below 2 and the width below 1024 (that is 25); the
  base count times 1.5, not above \<open>maxCount\<close>, when the width exceeds 1920 (that is 75);
  the base count 50 otherwise. When the background container exists, that many particle
  nodes are appended to it.
\<close>

theorem createParticles_count:
  assumes "config s = default_config"
  shows "minCount (particles (config s)) = 20 \<and> maxCount (particles (config s)) = 100
    \<and> count (particles (config s)) = 50
    \<and> minCount (particles (config s)) \<le> particleCount (config s) w r
    \<and> particleCount (config s) w r \<le> maxCount (particles (config s))
    \<and> particleCount (config s) w r =
        (if r < 2 \<and> w < 1024
         then max (minCount (particles (config s))) (count (particles (config s)) / 2)
         else if 1920 < w
         then min (maxCount (particles (config s))) (count (particles (config s)) * (3 / 2))
         else count (particles (config s)))
    \<and> particleCount (config s) w r = (if r < 2 \<and> w < 1024 then 25 else if 1920 < w then 75 else 50)
    \<and> particleNodes (createParticles s) =
        particleNodes s +
        (if ''bgAnimation'' \<in> elements s \<union> domIds s
         then loopIterations (particleCount (config s) (innerWidth s) (devicePixelRatio s))
         else 0)"
proof -
  have nodes: "particleNodes (createParticles s) =
        particleNodes s +
        (if ''bgAnimation'' \<in> elements s \<union> domIds s
         then loopIterations (particleCount (config s) (innerWidth s) (devicePixelRatio s))
         else 0)"
    by (simp add: createParticles_def getElement_cases consoleLog_def Let_def)
  have pc: "particleCount default_config w r = (if r < 2 \<and> w < 1024 then 25 else if 1920 < w then 75 else 50)"
    by (simp add: particleCount_def default_config_def Let_def)
  have cfg: "minCount (particles default_config) = 20" "maxCount (particles default_config) = 100"
    "count (particles default_config) = 50"
    by (simp_all add: default_config_def)
  show ?thesis
    using nodes unfolding assms cfg pc by simp
qed

theorem createParticles_count_witness:
  "config (constructor samplePage) = default_config
   \<and> particleCount (config (constructor samplePage)) 1280 1 = 50
   \<and> particleNodes (createParticles (constructor samplePage)) = 50"
proof -
  have c: "config (constructor samplePage) = default_config"
    by (simp add: constructor_def)
  have n: "loopIterations 50 = 50"
    by (simp add: loopIterations_def)
  have p: "innerWidth (constructor samplePage) = 1280" "devicePixelRatio (constructor samplePage) = 1"
    "particleNodes (constructor samplePage) = 0"
    "''bgAnimation'' \<in> elements (constructor samplePage) \<union> domIds (constructor samplePage)"
    by (simp_all add: constructor_def samplePage_def emptyPage_def)
  show ?thesis
    using createParticles_count [OF c, of 1280 1] c n p by simp
qed


section \<open>Form validation\<close>

text \<open>
  C4. \<open>validateForm\<close> returns \<open>true\<close> exactly when the name, email and message fields are
  strings that are non-empty after trimming and the trimmed email has the shape
  local-part \<open>@\<close> domain \<open>.\<close> tld without whitespace; it then shows no alert. It returns
  \<open>false\<close> for an empty name, an empty email, an empty message and for the emails
  \<open>bob@\<close> and \<open>bob.com\<close>, whatever the other fields hold, and \<open>true\<close> for the name
  \<open>A\<close>, the email \<open>a@b.co\<close> and the message \<open>hi\<close>.
\<close>

theorem validateForm_iff:
  "((\<exists>shown. validateForm fd = Inr (shown, True)) \<longleftrightarrow>
      nonEmptyText fd ''name'' \<and> nonEmptyText fd ''email'' \<and> nonEmptyText fd ''message''
      \<and> emailShape (emailText fd))
   \<and> (validateForm fd = Inr ([], True) \<longleftrightarrow> (\<exists>shown. validateForm fd = Inr (shown, True)))
   \<and> validateForm (form [] e m) = Inr ([FillAllFields], False)
   \<and> validateForm (form n [] m) = Inr ([FillAllFields], False)
   \<and> validateForm (form n e []) = Inr ([FillAllFields], False)
   \<and> (\<exists>shown. validateForm (form n ''bob@'' m) = Inr (shown, False))
   \<and> (\<exists>shown. validateForm (form n ''bob.com'' m) = Inr (shown, False))
   \<and> validateForm (form ''A'' ''a@b.co'' ''hi'') = Inr ([], True)"
proof -
  have shown: "(\<exists>shown. validateForm fd = Inr (shown, True)) \<longleftrightarrow> validateForm fd = Inr ([], True)"
    unfolding validateForm_def
    by (auto split: sum.splits if_splits)
  have ws: "\<not> isWhiteSpace 98" "\<not> isWhiteSpace 111" "\<not> isWhiteSpace 46" "\<not> isWhiteSpace 99"
    "\<not> isWhiteSpace 109" "\<not> isWhiteSpace 64" "\<not> isWhiteSpace 65" "\<not> isWhiteSpace 97"
    "\<not> isWhiteSpace 104" "\<not> isWhiteSpace 105"
    by (simp_all add: isWhiteSpace_def)
  have bob1: "\<not> test emailRegex (js ''bob@'')"
    by (simp add: test_def emailRegex_def js_simps notSpaceOrAt_def ws)
  have bob2: "\<not> test emailRegex (js ''bob.com'')"
    by (simp add: test_def emailRegex_def js_simps notSpaceOrAt_def ws)
  have ab: "test emailRegex (js ''a@b.co'')"
    by (simp add: test_def emailRegex_def js_simps notSpaceOrAt_def ws)
  have t1: "trim (js ''bob@'') = js ''bob@''" "trim (js ''bob.com'') = js ''bob.com''"
    "trim (js ''a@b.co'') = js ''a@b.co''" "trim (js ''A'') \<noteq> []" "trim (js ''hi'') \<noteq> []"
    "trim (js ''a@b.co'') \<noteq> []"
    by (simp_all add: trim_def js_simps ws)
  have fields: "trimmedField (form n e m) ''name'' = Inr (Some (trim (js n)))"
    "trimmedField (form n e m) ''email'' = Inr (Some (trim (js e)))"
    "trimmedField (form n e m) ''message'' = Inr (Some (trim (js m)))" for n e m
    by (simp_all add: trimmedField_def get_def form_def)
  have empty: "trim (js []) = []"
    by (simp add: trim_def js_simps)
  have a: "(\<exists>shown. validateForm fd = Inr (shown, True)) \<longleftrightarrow>
      nonEmptyText fd ''name'' \<and> nonEmptyText fd ''email'' \<and> nonEmptyText fd ''message''
      \<and> emailShape (emailText fd)"
    unfolding shown validateForm_success test_emailRegex ..
  have b: "validateForm (form [] e m) = Inr ([FillAllFields], False)"
    "validateForm (form n [] m) = Inr ([FillAllFields], False)"
    "validateForm (form n e []) = Inr ([FillAllFields], False)"
    by (simp_all add: validateForm_def fields empty falsy_def)
  have c: "\<exists>shown. validateForm (form n ''bob@'' m) = Inr (shown, False)"
    "\<exists>shown. validateForm (form n ''bob.com'' m) = Inr (shown, False)"
    by (simp_all add: validateForm_def fields falsy_def t1 bob1 bob2)
  have e: "validateForm (form ''A'' ''a@b.co'' ''hi'') = Inr ([], True)"
    using t1(4-6) by (simp add: validateForm_def fields falsy_def t1(1-3) ab)
  show ?thesis
    using a shown b c e by blast
qed


section \<open>One typing cycle at a time\<close>

lemma destroyed_no_reveal:
  assumes "typingOK s" "tornDown s"
  shows "revealsInFlight s = []"
proof -
  have "\<not> revealTask (snd (snd x))" if "x \<in> set (timers s)" for x
  proof
    assume "revealTask (snd (snd x))"
    then obtain tid due r where "x = (tid, due, ResolveChar r)"
      by (cases x; cases "snd (snd x)") auto
    with that assms show False by (auto simp: typingOK_def)
  qed
  then show ?thesis by (simp add: revealsInFlight_def filter_empty_conv)
qed

lemma revealsInFlight_typingTimers:
  "revealsInFlight s = filter (\<lambda>t. revealTask (snd (snd t))) (typingTimers s)"
proof -
  have "revealTask cb \<and> typingTask cb \<longleftrightarrow> revealTask cb" for cb
    by (cases cb) simp_all
  then show ?thesis
    by (simp add: revealsInFlight_def typingTimers_def conj_commute)
qed

lemma activeAnimations_step: "e \<noteq> Init \<Longrightarrow> activeAnimations (step e s) \<subseteq> activeAnimations s"
  by (cases e) (simp_all add: funpow_keeps)

lemma superseded_cycle:
  "animationId c \<notin> activeAnimations s \<Longrightarrow>
   runTask (StartCycle c) s = s \<and> runTask (NextText c) s = s"
  by (simp add: runCycle_def)


text \<open>
  Up to the first \<open>destroy\<close> (and through any calls of \<open>init\<close> and \<open>destroy\<close> as long
  as no tab switch follows a \<open>destroy\<close>) one cycle runs at a time. In every reachable
  state the set of active animations has at most one element and at most one reveal loop
  is in flight; while the destroyed flag is clear at most one continuation of a typing
  cycle is pending at all (the start timeout, the reveal in flight or the pause timeout:
  a cycle runs them one after the other), and once \<open>destroy\<close> has run no reveal is in
  flight. No event but \<open>init\<close> adds an active animation, \<open>init\<close> on an initialized
  controller only logs its warning, and the start or pause callback of a cycle whose
  identifier has left the set does nothing.
\<close>

lemma one_typing_cycle:
  assumes "reachable s"
  shows "finite (activeAnimations s) \<and> card (activeAnimations s) \<le> 1
    \<and> length (revealsInFlight s) \<le> 1
    \<and> (\<not> isDestroyed s \<longrightarrow> length (typingTimers s) \<le> 1)
    \<and> (tornDown s \<longrightarrow> revealsInFlight s = [])
    \<and> (\<forall>e. e \<noteq> Init \<longrightarrow> activeAnimations (step e s) \<subseteq> activeAnimations s)
    \<and> (isInitialized s \<longrightarrow> step Init s = consoleLog WarnAlreadyInitialized s)
    \<and> (\<forall>c. animationId c \<notin> activeAnimations s \<longrightarrow>
          runTask (StartCycle c) s = s \<and> runTask (NextText c) s = s)"
proof -
  from assms have inv: "invariant s" by (rule reachable_invariant)
  then have ok: "typingOK s" and an: "animationsOK s" by (simp_all add: invariant_def)
  have fin: "finite (activeAnimations s) \<and> card (activeAnimations s) \<le> 1"
  proof (cases "activeAnimations s = {}")
    case True
    then show ?thesis by simp
  next
    case False
    then obtain a where "a \<in> activeAnimations s" by blast
    with an have "activeAnimations s = {a}" by (auto simp: animationsOK_def)
    then show ?thesis by simp
  qed
  have typing: "length (typingTimers s) \<le> 1" if "\<not> tornDown s"
    using ok that by (simp add: typingOK_def)
  have live: "length (typingTimers s) \<le> 1" if "\<not> isDestroyed s"
    using ok that by (intro typing) (auto simp: typingOK_def)
  have none: "revealsInFlight s = []" if "tornDown s"
    using ok that by (rule destroyed_no_reveal)
  have reveal: "length (revealsInFlight s) \<le> 1"
  proof (cases "tornDown s")
    case True
    then show ?thesis by (simp add: none)
  next
    case False
    have "length (revealsInFlight s) \<le> length (typingTimers s)"
      unfolding revealsInFlight_typingTimers by (rule length_filter_le)
    with typing [OF False] show ?thesis by simp
  qed
  show ?thesis
    using fin reveal live none activeAnimations_step [of _ s] superseded_cycle [of _ s]
    by (simp add: init_eq)
qed

lemma one_typing_cycle_example:
  "reachable typingPage \<and> \<not> isDestroyed typingPage
   \<and> card (activeAnimations typingPage) \<le> 1 \<and> activeAnimations typingPage = {0}
   \<and> length (revealsInFlight typingPage) \<le> 1 \<and> length (typingTimers typingPage) = 1
   \<and> isInitialized typingPage \<and> step Init typingPage = consoleLog WarnAlreadyInitialized typingPage"
proof -
  have "activeAnimations typingPage = {0}" "\<not> isDestroyed typingPage" "isInitialized typingPage"
    by (simp_all add: typingPage_def run_def sample_defs)
  then show ?thesis
    using one_typing_cycle [OF reachable_typingPage] reachable_typingPage
    by (simp add: typingTimers_def typingPage_timers)
qed

text \<open>
  C5 fails on the code. In the run \<open>twoCycles\<close> the second \<open>init\<close> gives its cycle the
  identifier that the cycle of the first \<open>init\<close> has, since \<open>Date.now()\<close> has not
  advanced; the \<open>destroy\<close> between them empties the set of active animations, but the
  second \<open>init\<close> puts the same identifier back, so the superseded cycle passes the test
  of line 168 again. After the three calls two start timeouts are pending, and once the
  tab is visible and both have fired, two cycles are running and two reveal loops are in
  flight on the same element, with the destroyed flag clear and one identifier in the set.
\<close>

theorem two_reveal_loops:
  "typingTimers (run [Init, Destroy, Init] (constructor samplePage)) =
     [(0, 2000, StartCycle \<lparr>animationId = 0, currentIndex = 0\<rparr>),
      (3, 2000, StartCycle \<lparr>animationId = 0, currentIndex = 0\<rparr>)]
   \<and> \<not> isDestroyed twoCycles
   \<and> activeAnimations twoCycles = {0}
   \<and> length (revealsInFlight twoCycles) = 2
   \<and> length (typingTimers twoCycles) = 2
   \<and> map (\<lambda>t. fst t) (revealsInFlight twoCycles) = [7, 9]
   \<and> typingController twoCycles = Some 8"
proof -
  have "typingTimers (run [Init, Destroy, Init] (constructor samplePage)) =
     [(0, 2000, StartCycle \<lparr>animationId = 0, currentIndex = 0\<rparr>),
      (3, 2000, StartCycle \<lparr>animationId = 0, currentIndex = 0\<rparr>)]"
    by (simp add: typingTimers_def run_def sample_defs destroy_def stopTyping_def
        removeHandlers_def removeEventListener_def)
  then show ?thesis
    by (simp add: twoCycles_fields revealsInFlight_def typingTimers_def)
qed


section \<open>Scroll handling\<close>

lemma scrollPasses_fold:
  "scrollPasses (fold runFrameCallback fs s) = scrollPasses s + count_list fs ScrollFrame"
proof (induction fs arbitrary: s)
  case Nil
  show ?case by simp
next
  case (Cons f fs)
  show ?case by (cases f) (simp_all add: Cons.IH scrollFrame_def Let_def resizeFrame_keeps)
qed

lemma scrollPasses_frame:
  "scrollPasses (frame s) = scrollPasses s + count_list (frames s) ScrollFrame"
  by (simp add: frame_def scrollPasses_fold)

lemma scrollPasses_step: "Frame \<noteq> e \<Longrightarrow> scrollPasses (step e s) = scrollPasses s"
  by (cases e) (simp_all add: funpow_keeps)

lemma scrollPasses_run: "Frame \<notin> set es \<Longrightarrow> scrollPasses (run es s) = scrollPasses s"
  unfolding run_def by (induction es arbitrary: s) (simp_all add: scrollPasses_step)

lemma run_framesOK: "framesOK s \<Longrightarrow> framesOK (run es s)"
  unfolding run_def by (rule fold_preserves) (rule step_framesOK)


text \<open>
  C6. From a reachable state, after any sequence of events without a rendered frame
  (scroll events and direct calls of \<open>handleScroll\<close> among them), at most one frame
  callback of \<open>handleScroll\<close> is queued, so the next frame runs at most one pass (one
  navbar update and one reveal pass) and clears the ticking flag. A call of
  \<open>handleScroll\<close> while the flag is set, or while the destroyed flag is set, changes
  nothing.
\<close>

theorem scroll_one_pass_per_frame:
  assumes "reachable s" "Frame \<notin> set es"
  shows "count_list (frames (run es s)) ScrollFrame \<le> 1
    \<and> scrollPasses (frame (run es s)) \<le> scrollPasses s + 1
    \<and> scrollPasses (frame (run es s)) = scrollPasses s + count_list (frames (run es s)) ScrollFrame
    \<and> \<not> scrollTicking (frame (run es s))
    \<and> (scrollTicking s \<or> isDestroyed s \<longrightarrow> handleScroll s = s)"
proof -
  from assms(1) have "framesOK s"
    using reachable_invariant by (simp add: invariant_def)
  then have ok: "framesOK (run es s)" by (rule run_framesOK)
  then have one: "count_list (frames (run es s)) ScrollFrame \<le> 1"
    by (simp add: framesOK_def)
  have passes: "scrollPasses (frame (run es s)) = scrollPasses s + count_list (frames (run es s)) ScrollFrame"
    by (simp add: scrollPasses_frame scrollPasses_run assms(2))
  from ok have "framesOK (frame (run es s))" by (rule frame_framesOK)
  then have quiet: "\<not> scrollTicking (frame (run es s))"
    by (auto simp: framesOK_def split: if_splits)
  show ?thesis
    using one passes quiet by (simp add: handleScroll_def)
qed

theorem scroll_one_pass_per_frame_witness:
  "reachable startedPage \<and> Frame \<notin> set [Scroll 120, Scroll 240, HandleScroll, Scroll 360]
   \<and> scrollPasses (frame (run [Scroll 120, Scroll 240, HandleScroll, Scroll 360] startedPage))
       \<le> scrollPasses startedPage + 1
   \<and> frames (run [Scroll 120, Scroll 240, HandleScroll, Scroll 360] startedPage) = [ScrollFrame]"
proof -
  have "frames (run [Scroll 120, Scroll 240, HandleScroll, Scroll 360] startedPage) = [ScrollFrame]"
    by (simp add: run_def startedPage_def dispatch_def handleScroll_def sample_defs)
  then show ?thesis
    using scroll_one_pass_per_frame [OF reachable_startedPage,
        of "[Scroll 120, Scroll 240, HandleScroll, Scroll 360]"] reachable_startedPage
    by simp
qed


section \<open>Exceptions\<close>

lemma validateForm_returns: "textFields fd \<Longrightarrow> \<exists>r. validateForm fd = Inr r"
  by (auto simp: textFields_def validateForm_def trimmedField_def
      split: option.splits entry.splits)

lemma submitHandler_returns: "textFields (formFields s) \<Longrightarrow> \<exists>t. submitHandler s = Returns t"
  by (auto simp: submitHandler_def Let_def dest!: validateForm_returns split: prod.splits)

lemma missing_element:
  assumes "ident \<notin> elements s \<union> domIds s"
  shows "getElement ident True s = (None, consoleLog (WarnElementNotFound ident) s)"
  using assms by (simp add: getElement_cases)


lemma destroy_js_eq: "destroy_js s = Returns (destroy s)"
  by (cases "typingController s")
     (simp_all add: destroy_js_def destroy_def stopTyping_def member_def Let_def)

lemma scrollFrame_js_eq: "scrollFrame_js s = Returns (scrollFrame s)"
  by (simp add: scrollFrame_js_def scrollFrame_def updateNavbar_js_eq Let_def)

lemma resizeFrame_js_eq: "resizeFrame_js s = Returns (resizeFrame s)"
  by (cases "particleContainer s")
     (simp_all add: resizeFrame_js_def resizeFrame_def member_def createParticles_js_eq Let_def)

text \<open>
  C7, as amended. No public entry point (\<open>init\<close>, \<open>destroy\<close>, \<open>createParticles\<close>,
  \<open>handleScroll\<close>, \<open>handleResize\<close>, \<open>validateForm\<close>, the submit handler) throws,
  provided that none of the name, email and message entries of the form data it reads is
  a \<open>File\<close>. For the methods that use references that may be \<open>null\<close> this is the work
  of their guards: run with the \<open>TypeError\<close> of a use of \<open>null\<close>, \<open>destroy\<close>,
  \<open>createParticles\<close> and the two frame callbacks return what the guarded definitions
  compute. \<open>init\<close> returns whatever body stands in its \<open>try\<close> block; when the body
  raises, the state the body had reached is kept and the error is logged. The setup
  sequence of the source itself never raises, so that \<open>catch\<close> is never entered:
  \<open>initAOS\<close> and \<open>initPerformanceMonitoring\<close> catch and log what their collaborator
  raises, and an operation whose element is missing only logs the warning of
  \<open>getElement\<close>. The submit handler returns at once when the form has no submit button.
\<close>

theorem entry_points_return:
  "(textFields (formRead ep s) \<longrightarrow> (\<exists>t. call ep s = Returns t))
   \<and> destroy_js s = Returns (destroy s)
   \<and> createParticles_js s = Returns (createParticles s)
   \<and> scrollFrame_js s = Returns (scrollFrame s)
   \<and> resizeFrame_js s = Returns (resizeFrame s)
   \<and> (\<exists>t. initWith setup s = Returns t)
   \<and> (\<not> isInitialized s \<and> setup (consoleLog LogInitializing s) = Throws error s1 \<longrightarrow>
         initWith setup s = Returns (consoleLog (ErrorInitFailed error) s1))
   \<and> (\<exists>t. setupSequence s = Returns t)
   \<and> (\<exists>t. initAOS s = Returns t)
   \<and> (aos s = Raises \<longrightarrow> initAOS s = Returns (consoleLog (ErrorAOSFailed LibraryError) s))
   \<and> (\<exists>t. initPerformanceMonitoring s = Returns t)
   \<and> (performanceObserver s = Raises \<longrightarrow>
         initPerformanceMonitoring s = Returns (consoleLog LogPerformanceUnavailable s))
   \<and> (''bgAnimation'' \<notin> elements s \<union> domIds s \<longrightarrow>
         createParticles_js s = Returns (consoleLog (WarnElementNotFound ''bgAnimation'') s))
   \<and> (''typingText'' \<notin> elements s \<union> domIds s \<longrightarrow>
         initTypingAnimation s = consoleLog (WarnElementNotFound ''typingText'') s)
   \<and> (''navbar'' \<notin> elements s \<union> domIds s \<longrightarrow>
         updateNavbar_js s = Returns (consoleLog (WarnElementNotFound ''navbar'') s))
   \<and> (''contactForm'' \<notin> elements s \<union> domIds s \<longrightarrow>
         initContactForm_js s = Returns (consoleLog (WarnElementNotFound ''contactForm'') s))
   \<and> (particleContainer s = None \<longrightarrow> resizeFrame_js s = Returns (s\<lparr>resizeTicking := False\<rparr>))
   \<and> (\<not> hasSubmitBtn s \<longrightarrow> submitHandler s = Returns s)"
proof -
  have returns: "\<exists>t. call ep s = Returns t" if "textFields (formRead ep s)"
  proof (cases ep)
    case (CallValidateForm fd)
    with that obtain r where "validateForm fd = Inr r"
      using validateForm_returns [of fd] by auto
    with CallValidateForm show ?thesis by (cases r) simp
  next
    case CallSubmitHandler
    with that show ?thesis by (simp add: submitHandler_returns)
  qed (simp_all add: init_eq destroy_js_eq createParticles_js_eq)
  have caught: "\<exists>t. initWith setup s = Returns t"
    by (cases "setup (consoleLog LogInitializing s)") (simp_all add: initWith_def)
  have logged: "initWith setup s = Returns (consoleLog (ErrorInitFailed error) s1)"
    if "\<not> isInitialized s" "setup (consoleLog LogInitializing s) = Throws error s1"
    using that by (simp add: initWith_def)
  have missing: "createParticles_js s = Returns (consoleLog (WarnElementNotFound ''bgAnimation'') s)"
    if "''bgAnimation'' \<notin> elements s \<union> domIds s"
    using that by (simp add: createParticles_js_def missing_element)
  have navbar: "updateNavbar_js s = Returns (consoleLog (WarnElementNotFound ''navbar'') s)"
    if "''navbar'' \<notin> elements s \<union> domIds s"
    using that by (simp add: updateNavbar_js_def missing_element)
  have contact: "initContactForm_js s = Returns (consoleLog (WarnElementNotFound ''contactForm'') s)"
    if "''contactForm'' \<notin> elements s \<union> domIds s"
    using that by (simp add: initContactForm_js_def missing_element)
  have typing: "initTypingAnimation s = consoleLog (WarnElementNotFound ''typingText'') s"
    if "''typingText'' \<notin> elements s \<union> domIds s"
    using that by (simp add: initTypingAnimation_def missing_element)
  have resize: "resizeFrame_js s = Returns (s\<lparr>resizeTicking := False\<rparr>)" if "particleContainer s = None"
    using that by (simp add: resizeFrame_js_def)
  have aos: "initAOS s = Returns (consoleLog (ErrorAOSFailed LibraryError) s)" if "aos s = Raises"
    using that by (simp add: initAOS_returns)
  have perf: "initPerformanceMonitoring s = Returns (consoleLog LogPerformanceUnavailable s)"
    if "performanceObserver s = Raises"
    using that by (simp add: initPerformanceMonitoring_returns)
  have button: "submitHandler s = Returns s" if "\<not> hasSubmitBtn s"
    using that by (simp add: submitHandler_def)
  show ?thesis
    using returns caught logged missing navbar contact typing resize aos perf button
    by (simp add: destroy_js_eq createParticles_js_eq scrollFrame_js_eq resizeFrame_js_eq
        setupSequence_eq initAOS_returns initPerformanceMonitoring_returns)
qed

theorem entry_points_return_witness:
  "textFields (formRead CallInit (constructor faultyPage))
   \<and> (\<exists>t. call CallInit (constructor faultyPage) = Returns t)
   \<and> \<not> isInitialized (constructor faultyPage)
   \<and> initWith (\<lambda>s. Throws LibraryError (createParticles s)) (constructor faultyPage)
       = Returns (consoleLog (ErrorInitFailed LibraryError)
           (createParticles (consoleLog LogInitializing (constructor faultyPage))))
   \<and> aos (constructor faultyPage) = Raises
   \<and> initAOS (constructor faultyPage)
       = Returns (consoleLog (ErrorAOSFailed LibraryError) (constructor faultyPage))
   \<and> performanceObserver (constructor faultyPage) = Raises
   \<and> initPerformanceMonitoring (constructor faultyPage)
       = Returns (consoleLog LogPerformanceUnavailable (constructor faultyPage))
   \<and> {''bgAnimation'', ''typingText'', ''navbar'', ''contactForm''}
       \<inter> (elements (constructor faultyPage) \<union> domIds (constructor faultyPage)) = {}
   \<and> createParticles_js (constructor faultyPage)
       = Returns (consoleLog (WarnElementNotFound ''bgAnimation'') (constructor faultyPage))
   \<and> particleContainer (constructor faultyPage) = None
   \<and> resizeFrame_js (constructor faultyPage)
       = Returns ((constructor faultyPage)\<lparr>resizeTicking := False\<rparr>)
   \<and> \<not> hasSubmitBtn (constructor faultyPage)
   \<and> submitHandler (constructor faultyPage) = Returns (constructor faultyPage)
   \<and> textFields (formRead CallSubmitHandler samplePage)
   \<and> (\<exists>t. call CallSubmitHandler samplePage = Returns t)"
proof -
  have t: "textFields (formRead CallSubmitHandler samplePage)"
    by (simp add: textFields_def samplePage_def emptyPage_def form_def get_def)
  have i: "textFields (formRead CallInit (constructor faultyPage))"
    by (simp add: textFields_def get_def)
  have f: "\<not> isInitialized (constructor faultyPage)" "aos (constructor faultyPage) = Raises"
    "performanceObserver (constructor faultyPage) = Raises"
    "elements (constructor faultyPage) = {}" "domIds (constructor faultyPage) = {}"
    "particleContainer (constructor faultyPage) = None" "\<not> hasSubmitBtn (constructor faultyPage)"
    by (simp_all add: constructor_def faultyPage_def emptyPage_def)
  have submit: "\<exists>t. call CallSubmitHandler samplePage = Returns t"
    using entry_points_return [of CallSubmitHandler samplePage "\<lambda>s. Returns s" LibraryError
        samplePage, THEN conjunct1] t
    by simp
  have m: "''bgAnimation'' \<notin> elements (constructor faultyPage) \<union> domIds (constructor faultyPage)"
    "''typingText'' \<notin> elements (constructor faultyPage) \<union> domIds (constructor faultyPage)"
    "''navbar'' \<notin> elements (constructor faultyPage) \<union> domIds (constructor faultyPage)"
    "''contactForm'' \<notin> elements (constructor faultyPage) \<union> domIds (constructor faultyPage)"
    "{''bgAnimation'', ''typingText'', ''navbar'', ''contactForm''}
       \<inter> (elements (constructor faultyPage) \<union> domIds (constructor faultyPage)) = {}"
    by (simp_all add: f)
  have b: "setup0 (consoleLog LogInitializing (constructor faultyPage)) =
      Throws LibraryError (createParticles (consoleLog LogInitializing (constructor faultyPage)))"
    if "setup0 = (\<lambda>s. Throws LibraryError (createParticles s))" for setup0
    using that by simp
  from entry_points_return [of CallInit "constructor faultyPage"
      "\<lambda>s. Throws LibraryError (createParticles s)" LibraryError
      "createParticles (consoleLog LogInitializing (constructor faultyPage))"]
    submit t i f(1,2,3,6,7) m b [OF refl]
  show ?thesis by blast
qed

text \<open>
  C7 as stated fails: \<open>validateForm\<close> on form data whose name entry is a \<open>File\<close> raises
  a \<open>TypeError\<close> (\<open>formData.get('name')?.trim\<close> is not a function), and so does the
  submit handler, which calls it outside its \<open>try\<close> block.
\<close>

theorem validateForm_throws:
  "call (CallValidateForm [(''name'', File)]) samplePage = Throws TypeError samplePage
   \<and> call CallSubmitHandler (samplePage\<lparr>formFields := [(''name'', File)]\<rparr>)
       = Throws TypeError (samplePage\<lparr>formFields := [(''name'', File)]\<rparr>)"
  by (simp add: validateForm_def trimmedField_def get_def submitHandler_def Let_def
      samplePage_def emptyPage_def)


section \<open>\<open>destroy\<close>\<close>







section \<open>Repeated \<open>init\<close>\<close>

text \<open>
  C9. When the initialized flag is set, \<open>init\<close> returns after its warning and the state is
  otherwise the one it was called in: no field of the controller, no listener, no timeout
  and nothing of the page has changed.
\<close>

theorem init_again:
  assumes "isInitialized s"
  shows "init s = Returns (s\<lparr>console := console s @ [WarnAlreadyInitialized]\<rparr>)"
  using assms by (simp add: init_def initWith_def consoleLog_def)

theorem init_again_witness:
  "isInitialized startedPage
   \<and> init startedPage = Returns (startedPage\<lparr>console := console startedPage @ [WarnAlreadyInitialized]\<rparr>)"
proof -
  have i: "isInitialized startedPage" by (simp add: startedPage_def)
  from init_again [OF i] i show ?thesis by simp
qed


section \<open>The destroyed flag outlives \<open>init\<close>\<close>

lemma fold_fixed: "(\<And>x. f x s = s) \<Longrightarrow> fold f xs s = s"
  by (induction xs) simp_all

lemma handleScroll_destroyed: "isDestroyed s \<Longrightarrow> handleScroll s = s"
  by (simp add: handleScroll_def)

lemma dispatch_scroll_destroyed: "isDestroyed s \<Longrightarrow> dispatch ScrollEvent s = s"
proof -
  assume d: "isDestroyed s"
  have "callListener ScrollEvent l s = s" for l
    using d by (cases l; rename_tac a b; case_tac a; simp add: handleScroll_destroyed)
  then show ?thesis unfolding dispatch_def by (rule fold_fixed)
qed

lemma revealLoop_destroyed:
  "isDestroyed s \<Longrightarrow> typingHTML (snd (revealLoop r s)) = typingHTML s"
  by (simp add: revealLoop_def split: option.splits)

lemma runTask_destroyed:
  "isDestroyed s \<Longrightarrow> typingHTML (runTask cb s) = typingHTML s"
  by (cases cb) (simp_all add: revealLoop_destroyed)

lemma fire_destroyed:
  "isDestroyed s \<Longrightarrow> typingHTML (fire tid s) = typingHTML s"
  by (simp add: fire_def runTask_destroyed split: option.splits)

lemma step_destroyed:
  assumes "isDestroyed s" "controllerEvent e"
  shows "isDestroyed (step e s) \<and> typingHTML (step e s) = typingHTML s"
  using assms by (cases e) (simp_all add: fire_destroyed destroy_fields funpow_keeps)

lemma run_destroyed:
  "isDestroyed s \<Longrightarrow> list_all controllerEvent es \<Longrightarrow>
   isDestroyed (run es s) \<and> typingHTML (run es s) = typingHTML s"
  unfolding run_def
proof (induction es arbitrary: s)
  case Nil
  then show ?case by simp
next
  case (Cons e es)
  from Cons.prems have "isDestroyed (step e s) \<and> typingHTML (step e s) = typingHTML s"
    by (intro step_destroyed) simp_all
  with Cons.IH [of "step e s"] Cons.prems show ?case by simp
qed


text \<open>
  C10. \<open>init\<close> leaves the destroyed flag as it finds it. After \<open>destroy\<close> and then
  \<open>init\<close>, \<open>init\<close> has returned with the initialized flag set and the destroyed flag
  still set; \<open>handleScroll\<close> and a scroll event then request no frame, and through any
  sequence of events of the controller (timeouts firing among them) the flag stays set
  and the typed text stays as it is. No event of the controller clears a set flag; the
  \<open>visibilitychange\<close> listener with a visible document does.
\<close>

theorem init_keeps_destroyed:
  "isDestroyed (state_of (init s)) = isDestroyed s
   \<and> (let t = state_of (init (destroy s)) in
         init (destroy s) = Returns t \<and> isInitialized t \<and> isDestroyed t
         \<and> handleScroll t = t \<and> (\<forall>y. step (Scroll y) t = t\<lparr>scrollY := y\<rparr>)
         \<and> (\<forall>es. list_all controllerEvent es \<longrightarrow>
               isDestroyed (run es t) \<and> typingHTML (run es t) = typingHTML t))
   \<and> (\<forall>e. isDestroyed s \<and> controllerEvent e \<longrightarrow> isDestroyed (step e s))
   \<and> \<not> isDestroyed (step (Visibility False) (destroy s))"
proof -
  let ?t = "state_of (init (destroy s))"
  have d: "isDestroyed ?t" by (simp add: destroy_fields)
  have "init (destroy s) = Returns ?t" by (simp add: init_eq)
  moreover have "step (Scroll y) ?t = ?t\<lparr>scrollY := y\<rparr>" for y
    using d by (simp add: dispatch_scroll_destroyed)
  moreover have "isDestroyed (run es ?t) \<and> typingHTML (run es ?t) = typingHTML ?t"
    if "list_all controllerEvent es" for es
    using d that by (rule run_destroyed)
  ultimately show ?thesis
    using d step_destroyed [of s] by (simp add: Let_def handleScroll_destroyed)
qed

theorem init_keeps_destroyed_witness:
  "isDestroyed (state_of (init (destroy typingPage)))
   \<and> isInitialized (state_of (init (destroy typingPage)))
   \<and> list_all controllerEvent [Tick 5000, Timeout 5, Scroll 300, Frame]
   \<and> typingHTML (run [Tick 5000, Timeout 5, Scroll 300, Frame] (state_of (init (destroy typingPage))))
       = typingHTML (state_of (init (destroy typingPage)))
   \<and> isDestroyed (destroy typingPage) \<and> controllerEvent Init
   \<and> isDestroyed (step Init (destroy typingPage))"
proof -
  have e: "list_all controllerEvent [Tick 5000, Timeout 5, Scroll 300, Frame]" by simp
  from init_keeps_destroyed [of typingPage] e
  have "typingHTML (run [Tick 5000, Timeout 5, Scroll 300, Frame] (state_of (init (destroy typingPage))))
       = typingHTML (state_of (init (destroy typingPage)))"
    unfolding Let_def by blast
  moreover from init_keeps_destroyed [of "destroy typingPage"]
  have "isDestroyed (step Init (destroy typingPage))"
    by (simp add: destroy_fields)
  ultimately show ?thesis
    using init_keeps_destroyed [of typingPage] by (simp add: Let_def destroy_fields)
qed


end
